theory Spec2Isabelle
  imports Main
begin

section \<open>The MDSplus access library of MST (mst/mdsplus.py)\<close>

text \<open>
  The module keeps three process-wide dictionaries (connection, tree name and shot number
  per server address), a further global \<open>_AURORA\<close>, and a cache of query results on disk.
  Its functions are embedded as state transformers over a record of exactly that state;
  every \<open>raise\<close> is a value \<open>Inl e\<close>.
\<close>

subsection \<open>Exceptions\<close>

text \<open>
  The exception classes that the module can meet. \<open>MdsError\<close> stands for whatever the
  MDSplus client library raises when a remote operation fails. All of them derive from
  Python's \<open>Exception\<close>, so \<open>except Exception:\<close> and a bare \<open>except:\<close> catch each of them.
\<close>

datatype error =
    ValueError | TypeError | NameError | AssertionError
  | IOError | OSError | UnpicklingError | MdsError

subsection \<open>Calendar dates and shot numbers\<close>

record date =
  year :: int
  month :: int
  day :: int

definition is_leap :: "int \<Rightarrow> bool" where
  "is_leap y = (y mod 4 = 0 \<and> (y mod 100 \<noteq> 0 \<or> y mod 400 = 0))"

definition days_in_month :: "int \<Rightarrow> int \<Rightarrow> int" where
  "days_in_month y m =
     (if m = 2 then (if is_leap y then 29 else 28)
      else if m = 4 \<or> m = 6 \<or> m = 9 \<or> m = 11 then 30 else 31)"

text \<open>
  \<open>datetime.date(year, month, day)\<close>: the constructor raises \<open>ValueError\<close> unless
  \<open>1 \<le> year \<le> 9999\<close>, \<open>1 \<le> month \<le> 12\<close> and the day exists in that month.
\<close>

definition datetime_date :: "int \<Rightarrow> int \<Rightarrow> int \<Rightarrow> error + date" where
  "datetime_date y m d =
     (if y < 1 \<or> 9999 < y then Inl ValueError
      else if m < 1 \<or> 12 < m then Inl ValueError
      else if d < 1 \<or> days_in_month y m < d then Inl ValueError
      else Inr \<lparr>year = y, month = m, day = d\<rparr>)"

text \<open>A \<open>datetime.date\<close> object is a date that its constructor accepts.\<close>

definition calendar_date :: "date \<Rightarrow> bool" where
  "calendar_date dt = (datetime_date (year dt) (month dt) (day dt) = Inr dt)"

definition min_shot_for_date :: "date \<Rightarrow> int" where
  "min_shot_for_date dt =
     (let y = year dt; m = month dt; d = day dt
      in (y mod 1000 + 100) * 10000000 + m * 100000 + d * 1000 + 1)"

definition max_shot_for_date :: "date \<Rightarrow> int" where
  "max_shot_for_date dt = min_shot_for_date dt + 998"

text \<open>
  The module is Python 2: \<open>/\<close> on two integers is floor division, and \<open>%\<close> with a
  positive modulus is the floor remainder, which are \<open>div\<close> and \<open>mod\<close> on \<open>int\<close>.
\<close>

definition shot_to_date :: "int \<Rightarrow> error + date" where
  "shot_to_date shot =
     (let d = (shot div 1000) mod 100;
          m = (shot div 100000) mod 100;
          y = shot div 10000000 + 1900
      in datetime_date y m d)"

definition shot_valid :: "int \<Rightarrow> error + bool" where
  "shot_valid shot =
     (if shot > 9991212999 \<or> shot < 1000101001 \<or> shot mod 1000 = 0 then Inr False
      else (case shot_to_date shot of
              Inr _ \<Rightarrow> Inr True
            | Inl _ \<Rightarrow> Inr False))"

subsection \<open>Values of the numeric library and of Python\<close>

text \<open>
  What the remote service returns is a value of the numeric array library: a numeric
  scalar or a byte-string scalar (each kept as its raw bytes) or an array of such values.
  Python values that reach the cache are such a value, a byte string, or a tuple.
\<close>

datatype npdata = NpNumber string | NpString string | NpArray "npdata list"

datatype pyval = PyNp npdata | PyStr string | PyTuple "pyval list"

fun tostring :: "npdata \<Rightarrow> string" where
  "tostring (NpNumber b) = b"
| "tostring (NpString b) = b"
| "tostring (NpArray xs) = concat (map tostring xs)"

definition isinstance_ndarray :: "npdata \<Rightarrow> bool" where
  "isinstance_ndarray d = (case d of NpArray _ \<Rightarrow> True | _ \<Rightarrow> False)"

text \<open>
  The tuple assignment \<open>t, y = d\<close>: iterating an array yields its rows, iterating a byte
  string yields its characters, a number is not iterable (\<open>TypeError\<close>); anything but
  exactly two items is a \<open>ValueError\<close>.
\<close>

definition unpack2 :: "npdata \<Rightarrow> error + npdata \<times> npdata" where
  "unpack2 d =
     (case d of
        NpNumber _ \<Rightarrow> Inl TypeError
      | NpString b \<Rightarrow>
          (case b of [c1, c2] \<Rightarrow> Inr (NpString [c1], NpString [c2]) | _ \<Rightarrow> Inl ValueError)
      | NpArray xs \<Rightarrow> (case xs of [t, y] \<Rightarrow> Inr (t, y) | _ \<Rightarrow> Inl ValueError))"

subsection \<open>The world: module globals, clock, file system, observable events\<close>

type_synonym conn = nat

text \<open>
  A file holds either the pickle of a value or bytes that do not unpickle (an empty,
  truncated or foreign file). A path names a directory, a file, or a node that the process
  may neither read nor write.
\<close>

datatype content = Pickled pyval | Garbage

datatype node = Dir | File content | NoAccess

text \<open>The operations on the file system that the environment may refuse.\<close>

datatype fs_op = Makedirs string | OpenWrite string | Dump string

text \<open>
  Everything the module does to the outside is recorded, with its outcome: the requests to
  the remote service and the accesses to the file system.
\<close>

datatype event =
    EConnect string "conn option"
  | ECloseAllTrees conn bool
  | EOpenTree conn string int bool
  | EGet conn string "npdata option"
  | FsExists string
  | FsMakedirs string
  | FsOpenRead string
  | FsOpenWrite string

fun is_net :: "event \<Rightarrow> bool" where
  "is_net (EConnect _ _) = True"
| "is_net (ECloseAllTrees _ _) = True"
| "is_net (EOpenTree _ _ _ _) = True"
| "is_net (EGet _ _ _) = True"
| "is_net _ = False"

fun is_connect_to :: "string \<Rightarrow> event \<Rightarrow> bool" where
  "is_connect_to a (EConnect svr _) = (svr = a)"
| "is_connect_to a _ = False"

text \<open>
  The parts of the environment that the module does not define are parameters: the home
  directory, the digest function of \<open>hashlib\<close>, \<open>str.format\<close> on a template that contains
  braces, \<open>int()\<close> on a value of the remote service, and the remote service itself, whose
  answer to a request may depend on everything that happened before.
\<close>

record env =
  home :: string
  md5_hexdigest :: "string \<Rightarrow> string"
  str_format :: "string \<Rightarrow> string \<Rightarrow> error + string"
  data_int :: "npdata \<Rightarrow> error + int"
  connect_ok :: "event list \<Rightarrow> string \<Rightarrow> bool"
  close_ok :: "event list \<Rightarrow> conn \<Rightarrow> bool"
  open_ok :: "event list \<Rightarrow> conn \<Rightarrow> string \<Rightarrow> int \<Rightarrow> bool"
  get_reply :: "event list \<Rightarrow> conn \<Rightarrow> string \<Rightarrow> npdata option"

record state =
  SVR_CONNS :: "string \<rightharpoonup> conn"
  SVR_TREES :: "string \<rightharpoonup> string"
  SVR_SHOTS :: "string \<rightharpoonup> int"
  AURORA :: "conn option"
  today :: date
  nodes :: "string \<rightharpoonup> node"
  faults :: "fs_op set"
  trace :: "event list"
  next_conn :: conn

subsection \<open>Statements that may raise\<close>

type_synonym 'a io = "state \<Rightarrow> (error + 'a) \<times> state"

definition returns :: "'a \<Rightarrow> 'a io" where
  "returns x = (\<lambda>s. (Inr x, s))"

definition raise :: "error \<Rightarrow> 'a io" where
  "raise e = (\<lambda>s. (Inl e, s))"

definition lift :: "error + 'a \<Rightarrow> 'a io" where
  "lift r = (\<lambda>s. (r, s))"

definition and_then :: "'a io \<Rightarrow> ('a \<Rightarrow> 'b io) \<Rightarrow> 'b io" where
  "and_then m f = (\<lambda>s. case m s of (Inl e, s') \<Rightarrow> (Inl e, s') | (Inr x, s') \<Rightarrow> f x s')"

text \<open>\<open>try: m except: h\<close> with a bare \<open>except\<close>, which catches every exception.\<close>

definition try_except :: "'a io \<Rightarrow> 'a io \<Rightarrow> 'a io" where
  "try_except m h = (\<lambda>s. case m s of (Inl e, s') \<Rightarrow> h s' | (Inr x, s') \<Rightarrow> (Inr x, s'))"

definition log :: "event \<Rightarrow> state \<Rightarrow> state" where
  "log e s = s\<lparr>trace := trace s @ [e]\<rparr>"

definition py_assert :: "bool \<Rightarrow> unit io" where
  "py_assert b = (if b then returns () else raise AssertionError)"

subsection \<open>The MDSplus client\<close>

definition mds_Connection :: "env \<Rightarrow> string \<Rightarrow> conn io" where
  "mds_Connection env svr = (\<lambda>s.
     if connect_ok env (trace s) svr
     then (Inr (next_conn s),
           (log (EConnect svr (Some (next_conn s))) s)\<lparr>next_conn := Suc (next_conn s)\<rparr>)
     else (Inl MdsError, log (EConnect svr None) s))"

definition closeAllTrees :: "env \<Rightarrow> conn \<Rightarrow> unit io" where
  "closeAllTrees env c = (\<lambda>s.
     if close_ok env (trace s) c then (Inr (), log (ECloseAllTrees c True) s)
     else (Inl MdsError, log (ECloseAllTrees c False) s))"

definition openTree :: "env \<Rightarrow> conn \<Rightarrow> string \<Rightarrow> int \<Rightarrow> unit io" where
  "openTree env c tree shot = (\<lambda>s.
     if open_ok env (trace s) c tree shot then (Inr (), log (EOpenTree c tree shot True) s)
     else (Inl MdsError, log (EOpenTree c tree shot False) s))"

definition conn_get :: "env \<Rightarrow> conn \<Rightarrow> string \<Rightarrow> npdata io" where
  "conn_get env c expr = (\<lambda>s.
     case get_reply env (trace s) c expr of
       Some d \<Rightarrow> (Inr d, log (EGet c expr (Some d)) s)
     | None \<Rightarrow> (Inl MdsError, log (EGet c expr None) s))"

subsection \<open>The file system and the pickle format\<close>

definition os_path_exists :: "string \<Rightarrow> bool io" where
  "os_path_exists p = (\<lambda>s. (Inr (nodes s p \<noteq> None), log (FsExists p) s))"

definition os_makedirs :: "string \<Rightarrow> unit io" where
  "os_makedirs p = (\<lambda>s.
     if Makedirs p \<in> faults s \<or> nodes s p \<noteq> None then (Inl OSError, log (FsMakedirs p) s)
     else (Inr (), (log (FsMakedirs p) s)\<lparr>nodes := (nodes s)(p \<mapsto> Dir)\<rparr>))"

definition open_rb :: "string \<Rightarrow> content io" where
  "open_rb p = (\<lambda>s.
     case nodes s p of
       Some (File c) \<Rightarrow> (Inr c, log (FsOpenRead p) s)
     | _ \<Rightarrow> (Inl IOError, log (FsOpenRead p) s))"

definition cPickle_load :: "content \<Rightarrow> error + pyval" where
  "cPickle_load c = (case c of Pickled v \<Rightarrow> Inr v | Garbage \<Rightarrow> Inl UnpicklingError)"

text \<open>Opening for writing creates the file or truncates it, so it holds no pickle yet.\<close>

definition open_wb :: "string \<Rightarrow> unit io" where
  "open_wb p = (\<lambda>s.
     if OpenWrite p \<in> faults s \<or> nodes s p = Some Dir \<or> nodes s p = Some NoAccess
     then (Inl IOError, log (FsOpenWrite p) s)
     else (Inr (), (log (FsOpenWrite p) s)\<lparr>nodes := (nodes s)(p \<mapsto> File Garbage)\<rparr>))"

text \<open>A write that fails leaves the file as it is by then: truncated.\<close>

definition cPickle_dump :: "pyval \<Rightarrow> string \<Rightarrow> unit io" where
  "cPickle_dump data p = (\<lambda>s.
     if Dump p \<in> faults s then (Inl IOError, s)
     else (Inr (), s\<lparr>nodes := (nodes s)(p \<mapsto> File (Pickled data))\<rparr>))"

definition os_path_join :: "string \<Rightarrow> string \<Rightarrow> string" where
  "os_path_join a b =
     (if take 1 b = ''/'' then b
      else if a = [] \<or> take 1 (rev a) = ''/'' then a @ b
      else a @ ''/'' @ b)"

definition rstrip_slash :: "string \<Rightarrow> string" where
  "rstrip_slash p = rev (dropWhile (\<lambda>c. c = CHR ''/'') (rev p))"

text \<open>
  \<open>os.path.expanduser\<close> on a path that starts with \<open>~/\<close>, the only form the module
  passes: the tilde becomes the home directory without its trailing slashes.
\<close>

definition expanduser :: "env \<Rightarrow> string \<Rightarrow> string" where
  "expanduser env p =
     (if take 2 p = ''~/'' then rstrip_slash (home env) @ drop 1 p else p)"

text \<open>The decimal numeral of an integer, as \<open>str.format\<close> prints it.\<close>

definition digit_char :: "int \<Rightarrow> char" where
  "digit_char d = ''0123456789'' ! nat d"

function digits :: "int \<Rightarrow> string" where
  "digits n =
     (if n < 10 then [digit_char n] else digits (n div 10) @ [digit_char (n mod 10)])"
  by pat_completeness auto
termination
  by (relation "measure nat") auto

declare digits.simps [simp del]

definition py_str :: "int \<Rightarrow> string" where
  "py_str i = (if i < 0 then CHR ''-'' # digits (- i) else digits i)"

text \<open>
  Formatting a template without braces returns the template; other templates are left
  to the parameter.
\<close>

definition py_format :: "env \<Rightarrow> string \<Rightarrow> string \<Rightarrow> error + string" where
  "py_format env template arg =
     (if CHR ''{'' \<notin> set template \<and> CHR ''}'' \<notin> set template then Inr template
      else str_format env template arg)"

subsection \<open>The session table\<close>

definition get_svr_cached :: "string \<Rightarrow> state \<Rightarrow> conn option \<times> string option \<times> int option" where
  "get_svr_cached svr s =
     (case (SVR_CONNS s svr, SVR_TREES s svr, SVR_SHOTS s svr) of
        (Some c, Some t, Some n) \<Rightarrow> (Some c, Some t, Some n)
      | _ \<Rightarrow> (None, None, None))"

definition update_svr_cache :: "string \<Rightarrow> conn \<Rightarrow> string \<Rightarrow> int \<Rightarrow> unit io" where
  "update_svr_cache svr c tree shot = (\<lambda>s.
     (Inr (), s\<lparr>SVR_CONNS := (SVR_CONNS s)(svr \<mapsto> c),
                SVR_TREES := (SVR_TREES s)(svr \<mapsto> tree),
                SVR_SHOTS := (SVR_SHOTS s)(svr \<mapsto> shot)\<rparr>))"

definition get_server_for_shot :: "int \<Rightarrow> state \<Rightarrow> string" where
  "get_server_for_shot shot s =
     (let first = min_shot_for_date (today s)
      in if shot \<ge> first then ''aurora.physics.wisc.edu'' else ''dave.physics.wisc.edu'')"

definition get_connection :: "env \<Rightarrow> int \<Rightarrow> string \<Rightarrow> conn io" where
  "get_connection env shot tree = (\<lambda>s.
     let svr = get_server_for_shot shot s;
         (cached, tree', shot') = get_svr_cached svr s
     in and_then (case cached of None \<Rightarrow> mds_Connection env svr | Some c \<Rightarrow> returns c)
          (\<lambda>c.
        and_then
          (if Some tree \<noteq> tree' \<or> Some shot \<noteq> shot'
           then and_then (try_except (closeAllTrees env c) (returns ()))
                  (\<lambda>_. openTree env c tree shot)
           else returns ())
          (\<lambda>_.
        and_then (update_svr_cache svr c tree shot)
          (\<lambda>_. returns c))) s)"

subsection \<open>The result cache\<close>

definition cache_path :: "env \<Rightarrow> string \<Rightarrow> int \<Rightarrow> string \<Rightarrow> string \<times> string" where
  "cache_path env tree shot expr =
     (let dir = expanduser env (''~/.mdsplus_cache/'' @ tree @ ''/'' @ py_str shot @ ''/'');
          fn = md5_hexdigest env expr
      in (dir, fn))"

definition save_to_cache :: "env \<Rightarrow> string \<Rightarrow> int \<Rightarrow> string \<Rightarrow> pyval \<Rightarrow> unit io" where
  "save_to_cache env tree shot expr data =
     (let (dir, fn) = cache_path env tree shot expr
      in and_then (os_path_exists dir)
           (\<lambda>there.
         and_then (if \<not> there then os_makedirs dir else returns ())
           (\<lambda>_.
         let path = os_path_join dir fn
         in and_then (open_wb path) (\<lambda>_. cPickle_dump data path))))"

definition load_from_cache :: "env \<Rightarrow> string \<Rightarrow> int \<Rightarrow> string \<Rightarrow> pyval io" where
  "load_from_cache env tree shot expr =
     (let (dir, fn) = cache_path env tree shot expr;
          path = os_path_join dir fn
      in and_then (open_rb path) (\<lambda>f. lift (cPickle_load f)))"

text \<open>
  In both retrieval functions the \<open>return\<close> inside \<open>try\<close> ends the call with the loaded
  value; any exception of the load is dropped and the call goes on. The first step of the
  model yields \<open>Some v\<close> for the former and \<open>None\<close> for the latter, as it does when the
  cache is not used.
\<close>

definition cache_lookup :: "env \<Rightarrow> bool \<Rightarrow> string \<Rightarrow> int \<Rightarrow> string \<Rightarrow> pyval option io" where
  "cache_lookup env use_cache tree shot expr =
     (if use_cache
      then try_except (and_then (load_from_cache env tree shot expr) (\<lambda>v. returns (Some v)))
             (returns None)
      else returns None)"

definition signal_expr :: "string \<Rightarrow> string" where
  "signal_expr signal =
     ''[if_error(dim_of('' @ signal @ ''), $roprand), if_error('' @ signal @ '', $roprand)]''"

definition get_signal :: "env \<Rightarrow> int \<Rightarrow> string \<Rightarrow> string \<Rightarrow> bool \<Rightarrow> pyval io" where
  "get_signal env shot signal tree use_cache =
     (let expr = signal_expr signal
      in and_then (cache_lookup env use_cache tree shot expr)
           (\<lambda>hit. case hit of
              Some v \<Rightarrow> returns v
            | None \<Rightarrow>
                and_then (get_connection env shot tree)
                  (\<lambda>c.
                and_then (conn_get env c expr)
                  (\<lambda>d.
                and_then (lift (unpack2 d))
                  (\<lambda>(t, y).
                and_then (py_assert (isinstance_ndarray t))
                  (\<lambda>_.
                and_then (py_assert (isinstance_ndarray y))
                  (\<lambda>_.
                and_then
                  (if use_cache
                   then save_to_cache env tree shot expr (PyTuple [PyNp t, PyNp y])
                   else returns ())
                  (\<lambda>_. returns (PyTuple [PyNp t, PyNp y])))))))))"

definition units_expr :: "string \<Rightarrow> string" where
  "units_expr signal = ''units('' @ signal @ '')''"

text \<open>
  The units query formats its expression a second time before sending it
  (\<open>conn.get(expr.format(signal))\<close>); the cache key is the expression formatted once.
\<close>

definition get_signal_units :: "env \<Rightarrow> int \<Rightarrow> string \<Rightarrow> string \<Rightarrow> bool \<Rightarrow> pyval io" where
  "get_signal_units env shot signal tree use_cache =
     (let expr = units_expr signal
      in and_then (cache_lookup env use_cache tree shot expr)
           (\<lambda>hit. case hit of
              Some v \<Rightarrow> returns v
            | None \<Rightarrow>
                and_then (get_connection env shot tree)
                  (\<lambda>c.
                and_then (lift (py_format env expr signal))
                  (\<lambda>sent.
                and_then (conn_get env c sent)
                  (\<lambda>d.
                let units = tostring d
                in and_then
                     (if use_cache then save_to_cache env tree shot expr (PyStr units)
                      else returns ())
                     (\<lambda>_. returns (PyStr units)))))))"

subsection \<open>The current shot\<close>

definition current_shot_expr :: string where
  "current_shot_expr = ''current_shot('' @ [CHR 0x22] @ ''mst'' @ [CHR 0x22] @ '')''"

text \<open>
  \<open>_AURORA\<close> is a global of its own, unbound until the first call: reading it then raises
  \<open>NameError\<close>, which the bare \<open>except\<close> catches like any failure of the query.
\<close>

definition current_shot :: "env \<Rightarrow> int io" where
  "current_shot env =
     try_except
       (and_then (\<lambda>s. case AURORA s of
                        None \<Rightarrow> raise NameError s
                      | Some c \<Rightarrow> conn_get env c current_shot_expr s)
          (\<lambda>d. lift (data_int env d)))
       (and_then (mds_Connection env ''aurora.physics.wisc.edu'')
          (\<lambda>c.
        and_then (\<lambda>s. (Inr (), s\<lparr>AURORA := Some c\<rparr>))
          (\<lambda>_.
        and_then (conn_get env c current_shot_expr)
          (\<lambda>d. lift (data_int env d)))))"

subsection \<open>Observing a call\<close>

text \<open>The events that a step from state \<open>s\<close> to state \<open>s'\<close> has added to the trace.\<close>

definition events_since :: "state \<Rightarrow> state \<Rightarrow> event list" where
  "events_since s s' = drop (length (trace s)) (trace s')"

fun is_open_tree :: "event \<Rightarrow> bool" where
  "is_open_tree (EOpenTree _ _ _ _) = True"
| "is_open_tree _ = False"

subsection \<open>A concrete world\<close>

text \<open>
  An environment and states on which the functions are run: a remote service that accepts
  every connection and every open, fails \<open>closeAllTrees\<close> unless a tree has been opened
  before, and answers every query with one pair of one-element arrays; a formatter that
  raises \<open>ValueError\<close> on every template with a brace, as Python does on an unmatched
  one; a digest that is short enough to read. The process starts on 2 January 2014 with
  empty tables and an empty disk.
\<close>

definition demo_env :: env where
  "demo_env =
     \<lparr>home = ''/home/mst'',
      md5_hexdigest = (\<lambda>expr. ''5d41'' @ take 4 expr),
      str_format = (\<lambda>template arg. Inl ValueError),
      data_int = (\<lambda>d. Inr 1140102007),
      connect_ok = (\<lambda>tr svr. True),
      close_ok = (\<lambda>tr c. list_ex is_open_tree tr),
      open_ok = (\<lambda>tr c tree shot. True),
      get_reply = (\<lambda>tr c expr. Some (NpArray [NpArray [NpNumber ''t0''], NpArray [NpNumber ''y0'']]))\<rparr>"

definition boot :: state where
  "boot =
     \<lparr>SVR_CONNS = Map.empty, SVR_TREES = Map.empty, SVR_SHOTS = Map.empty, AURORA = None,
      today = \<lparr>year = 2014, month = 1, day = 2\<rparr>,
      nodes = Map.empty, faults = {}, trace = [], next_conn = 0\<rparr>"

text \<open>The state after the first connection of the process, to the archive server.\<close>

definition dave_session :: state where
  "dave_session =
     \<lparr>SVR_CONNS = [''dave.physics.wisc.edu'' \<mapsto> 0],
      SVR_TREES = [''dave.physics.wisc.edu'' \<mapsto> ''mst''],
      SVR_SHOTS = [''dave.physics.wisc.edu'' \<mapsto> 1140101001],
      AURORA = None,
      today = \<lparr>year = 2014, month = 1, day = 2\<rparr>,
      nodes = Map.empty, faults = {},
      trace = [EConnect ''dave.physics.wisc.edu'' (Some 0), ECloseAllTrees 0 False,
               EOpenTree 0 ''mst'' 1140101001 True],
      next_conn = 1\<rparr>"

subsection \<open>Notions used in the properties of the cache\<close>

text \<open>The path of the cache file of a query, as both cache functions compute it.\<close>

definition cache_file :: "env \<Rightarrow> string \<Rightarrow> int \<Rightarrow> string \<Rightarrow> string" where
  "cache_file env tree shot expr =
     (let (dir, fn) = cache_path env tree shot expr in os_path_join dir fn)"

text \<open>
  What a retrieval function does with the outcome of its fetch when the cache is in use:
  an exception passes through, a value is saved and then returned, and an exception of
  the save replaces the value.
\<close>

definition then_save ::
  "env \<Rightarrow> string \<Rightarrow> int \<Rightarrow> string \<Rightarrow> (error + pyval) \<times> state \<Rightarrow> (error + pyval) \<times> state" where
  "then_save env tree shot expr r =
     (case r of
        (Inl e, s) \<Rightarrow> (Inl e, s)
      | (Inr v, s) \<Rightarrow>
          (case save_to_cache env tree shot expr v s of
             (Inl e, s') \<Rightarrow> (Inl e, s')
           | (Inr _, s') \<Rightarrow> (Inr v, s')))"

text \<open>What the demonstration service answers to the signal query, as the pair returned.\<close>

definition demo_pair :: pyval where
  "demo_pair = PyTuple [PyNp (NpArray [NpNumber ''t0'']), PyNp (NpArray [NpNumber ''y0''])]"

text \<open>
  A cache directory in which the files of the signal query and of the units query do not
  unpickle, and fresh states in which the environment refuses one step of the save.
\<close>

definition corrupt_cache :: state where
  "corrupt_cache =
     boot\<lparr>nodes :=
       [''/home/mst/.mdsplus_cache/mst/1140101001/'' \<mapsto> Dir,
        cache_file demo_env ''mst'' 1140101001 (signal_expr ''ip'') \<mapsto> File Garbage,
        cache_file demo_env ''mst'' 1140101001 (units_expr ''ip'') \<mapsto> File Garbage]\<rparr>"

definition refusing :: "fs_op \<Rightarrow> state" where
  "refusing f = boot\<lparr>faults := {f}\<rparr>"

subsection \<open>Runs of the module\<close>

text \<open>
  The table records a connection for an address when all three dictionaries have the
  address as a key, which is what \<open>get_svr_cached\<close> asks for.
\<close>

definition recorded :: "state \<Rightarrow> string \<Rightarrow> conn \<Rightarrow> bool" where
  "recorded s a c = (SVR_CONNS s a = Some c \<and> SVR_TREES s a \<noteq> None \<and> SVR_SHOTS s a \<noteq> None)"

text \<open>
  A client of the module calls its functions in any order, catching what they raise, while
  the calendar moves on.
\<close>

datatype call =
    GetConnection int string
  | GetSignal int string string bool
  | GetSignalUnits int string string bool
  | CurrentShot
  | ClockTo date

fun run_call :: "env \<Rightarrow> call \<Rightarrow> state \<Rightarrow> state" where
  "run_call env (GetConnection shot tree) s = snd (get_connection env shot tree s)"
| "run_call env (GetSignal shot signal tree use_cache) s =
     snd (get_signal env shot signal tree use_cache s)"
| "run_call env (GetSignalUnits shot signal tree use_cache) s =
     snd (get_signal_units env shot signal tree use_cache s)"
| "run_call env CurrentShot s = snd (current_shot env s)"
| "run_call env (ClockTo d) s = s\<lparr>today := d\<rparr>"

definition run_calls :: "env \<Rightarrow> call list \<Rightarrow> state \<Rightarrow> state" where
  "run_calls env cs s = fold (run_call env) cs s"

text \<open>
  A statement keeps the record of an address when, run in a state where the table records
  connection \<open>c\<close> for address \<open>a\<close>, it leaves that record in place and only appends events
  that satisfy \<open>P\<close> to the trace.
\<close>

definition keeps :: "(event \<Rightarrow> bool) \<Rightarrow> string \<Rightarrow> conn \<Rightarrow> 'a io \<Rightarrow> bool" where
  "keeps P a c m =
     (\<forall>s. recorded s a c \<longrightarrow>
        recorded (snd (m s)) a c
        \<and> (\<exists>evs. trace (snd (m s)) = trace s @ evs \<and> list_all P evs))"

text \<open>The events that construct no connection to address \<open>a\<close>.\<close>

abbreviation (input) other_than :: "string \<Rightarrow> event \<Rightarrow> bool" where
  "other_than a \<equiv> \<lambda>e. \<not> is_connect_to a e"

fun is_connect :: "event \<Rightarrow> bool" where
  "is_connect (EConnect _ _) = True"
| "is_connect _ = False"

text \<open>
  A statement stays off the disk when it leaves the file system as it is and appends only
  requests to the remote service to the trace.
\<close>

definition off_disk :: "'a io \<Rightarrow> bool" where
  "off_disk m =
     (\<forall>s. nodes (snd (m s)) = nodes s
        \<and> (\<exists>evs. trace (snd (m s)) = trace s @ evs \<and> list_all is_net evs))"

section \<open>Properties\<close>

subsection \<open>Shot numbers\<close>

lemma datetime_date_fields:
  "datetime_date y m d = Inr dt \<Longrightarrow> year dt = y \<and> month dt = m \<and> day dt = d"
  by (auto simp: datetime_date_def split: if_splits)

lemma calendar_date_bounds:
  assumes "calendar_date dt"
  shows "1 \<le> month dt" "month dt \<le> 12" "1 \<le> day dt" "day dt \<le> 31"
  using assms
  by (auto simp: calendar_date_def datetime_date_def days_in_month_def split: if_splits)

lemma base_div:
  fixes k q b :: int
  assumes "0 \<le> q" "q < b"
  shows "(k * b + q) div b = k"
  using assms by (simp add: div_pos_pos_trivial)

lemma base_mod:
  fixes k q b :: int
  assumes "0 \<le> q" "q < b"
  shows "(k * b + q) mod b = q"
  using assms by (simp add: mod_pos_pos_trivial)

lemma shot_fields:
  fixes c m d q :: int
  assumes "0 \<le> m" "m < 100" "0 \<le> d" "d < 100" "0 \<le> q" "q < 1000"
  defines "n \<equiv> c * 10000000 + m * 100000 + d * 1000 + q"
  shows "n div 10000000 = c" "(n div 100000) mod 100 = m" "(n div 1000) mod 100 = d"
    "n mod 1000 = q"
proof -
  have a: "n = (c * 10000 + m * 100 + d) * 1000 + q"
    by (simp add: n_def algebra_simps)
  have d1000: "n div 1000 = (c * 100 + m) * 100 + d"
    using base_div [of q 1000 "c * 10000 + m * 100 + d"] assms(5,6) a by (simp add: algebra_simps)
  show "n mod 1000 = q"
    using base_mod [of q 1000 "c * 10000 + m * 100 + d"] assms(5,6) a by simp
  show "(n div 1000) mod 100 = d"
    unfolding d1000 using assms(3,4) by (rule base_mod)
  have b: "n = (c * 100 + m) * 100000 + (d * 1000 + q)"
    by (simp add: n_def algebra_simps)
  have r: "0 \<le> d * 1000 + q" "d * 1000 + q < 100000"
    using assms by auto
  have d5: "n div 100000 = c * 100 + m"
    unfolding b using r by (rule base_div)
  show "(n div 100000) mod 100 = m"
    unfolding d5 using assms(1,2) by (rule base_mod)
  have c': "n = c * 10000000 + (m * 100000 + d * 1000 + q)"
    by (simp add: n_def)
  have r2: "0 \<le> m * 100000 + d * 1000 + q" "m * 100000 + d * 1000 + q < 10000000"
    using assms by auto
  show "n div 10000000 = c"
    unfolding c' using r2 by (rule base_div)
qed

lemma min_shot_formula:
  assumes "2000 \<le> year dt" "year dt \<le> 2999"
  shows "min_shot_for_date dt = (year dt - 1900) * 10000000 + month dt * 100000 + day dt * 1000 + 1"
proof -
  have "year dt = 2 * 1000 + (year dt - 2000)" by simp
  then have "year dt mod 1000 = year dt - 2000"
    using base_mod [of "year dt - 2000" 1000 2] assms by simp
  then show ?thesis by (simp add: min_shot_for_date_def)
qed

text \<open>
  Claim C5, as the code has it. For every calendar date whose year lies in 2000..2999,
  \<open>min_shot_for_date\<close> is \<open>(year - 1900) * 10^7 + month * 10^5 + day * 10^3 + 1\<close>, its
  decimal fields are the year offset, the month, the day and the sequence number 1,
  \<open>shot_to_date\<close> maps it back to the date, and \<open>max_shot_for_date\<close> is that number plus
  998 and decodes to the same date. Up to the year 2899 both numbers have ten digits.
\<close>

theorem min_shot_roundtrip:
  assumes "calendar_date dt" "2000 \<le> year dt" "year dt \<le> 2999"
  shows "min_shot_for_date dt = (year dt - 1900) * 10000000 + month dt * 100000 + day dt * 1000 + 1
       \<and> (min_shot_for_date dt) div 10000000 = year dt - 1900
       \<and> (min_shot_for_date dt div 100000) mod 100 = month dt
       \<and> (min_shot_for_date dt div 1000) mod 100 = day dt
       \<and> min_shot_for_date dt mod 1000 = 1
       \<and> shot_to_date (min_shot_for_date dt) = Inr dt
       \<and> max_shot_for_date dt = min_shot_for_date dt + 998
       \<and> shot_to_date (max_shot_for_date dt) = Inr dt
       \<and> (year dt \<le> 2899 \<longrightarrow>
            1000000000 \<le> min_shot_for_date dt \<and> max_shot_for_date dt < 10000000000)"
proof -
  note b = calendar_date_bounds [OF assms(1)]
  let ?c = "year dt - 1900"
  have f: "min_shot_for_date dt = ?c * 10000000 + month dt * 100000 + day dt * 1000 + 1"
    using assms(2,3) by (rule min_shot_formula)
  have m: "0 \<le> month dt" "month dt < 100" "0 \<le> day dt" "day dt < 100"
    using b by auto
  have lo: "min_shot_for_date dt div 10000000 = ?c"
    "(min_shot_for_date dt div 100000) mod 100 = month dt"
    "(min_shot_for_date dt div 1000) mod 100 = day dt"
    "min_shot_for_date dt mod 1000 = 1"
    unfolding f using shot_fields [OF m, of 1 ?c] by simp_all
  have g: "max_shot_for_date dt = ?c * 10000000 + month dt * 100000 + day dt * 1000 + 999"
    by (simp add: max_shot_for_date_def f)
  have hi: "max_shot_for_date dt div 10000000 = ?c"
    "(max_shot_for_date dt div 100000) mod 100 = month dt"
    "(max_shot_for_date dt div 1000) mod 100 = day dt"
    unfolding g using shot_fields [OF m, of 999 ?c] by simp_all
  have cd: "datetime_date (year dt) (month dt) (day dt) = Inr dt"
    using assms(1) by (simp add: calendar_date_def)
  have r1: "shot_to_date (min_shot_for_date dt) = Inr dt"
    by (simp add: shot_to_date_def lo cd)
  have r2: "shot_to_date (max_shot_for_date dt) = Inr dt"
    by (simp add: shot_to_date_def hi cd)
  have ten: "year dt \<le> 2899 \<longrightarrow>
      1000000000 \<le> min_shot_for_date dt \<and> max_shot_for_date dt < 10000000000"
    unfolding f g using assms(2) b by auto
  show ?thesis
    using f lo r1 r2 ten by (simp add: max_shot_for_date_def)
qed

theorem min_shot_roundtrip_witness:
  "calendar_date \<lparr>year = 2014, month = 1, day = 1\<rparr>
   \<and> min_shot_for_date \<lparr>year = 2014, month = 1, day = 1\<rparr> = 1140101001
   \<and> shot_to_date 1140101001 = Inr \<lparr>year = 2014, month = 1, day = 1\<rparr>
   \<and> max_shot_for_date \<lparr>year = 2014, month = 1, day = 1\<rparr> = 1140101999
   \<and> shot_to_date 1140101999 = Inr \<lparr>year = 2014, month = 1, day = 1\<rparr>"
proof -
  let ?d = "\<lparr>year = 2014, month = 1, day = 1\<rparr>"
  have c: "calendar_date ?d"
    by (simp add: calendar_date_def datetime_date_def days_in_month_def)
  show ?thesis
    using c min_shot_roundtrip [OF c]
    by (simp add: min_shot_for_date_def max_shot_for_date_def)
qed

text \<open>
  Claim C5 as stated, for every calendar date, fails on 31 December 1999: the year field
  is \<open>1999 mod 1000 + 100 = 1099\<close>, not \<open>99\<close>, the number has eleven digits, and it
  decodes to the year 2999.
\<close>

theorem min_shot_1999_counterexample:
  "calendar_date \<lparr>year = 1999, month = 12, day = 31\<rparr>
   \<and> min_shot_for_date \<lparr>year = 1999, month = 12, day = 31\<rparr> = 10991231001
   \<and> min_shot_for_date \<lparr>year = 1999, month = 12, day = 31\<rparr>
        \<noteq> (1999 - 1900) * 10000000 + 12 * 100000 + 31 * 1000 + 1
   \<and> \<not> min_shot_for_date \<lparr>year = 1999, month = 12, day = 31\<rparr> < 10000000000
   \<and> shot_to_date (min_shot_for_date \<lparr>year = 1999, month = 12, day = 31\<rparr>)
        = Inr \<lparr>year = 2999, month = 12, day = 31\<rparr>
   \<and> shot_to_date (min_shot_for_date \<lparr>year = 1999, month = 12, day = 31\<rparr>)
        \<noteq> Inr \<lparr>year = 1999, month = 12, day = 31\<rparr>"
  by (simp add: calendar_date_def datetime_date_def days_in_month_def min_shot_for_date_def
      shot_to_date_def)

text \<open>
  Claim C9: \<open>shot_valid(1140101000)\<close> is false and \<open>shot_valid(1140101001)\<close> is true; the
  latter decodes to 1 January 2014.
\<close>

theorem shot_valid_examples:
  "shot_valid 1140101000 = Inr False \<and> shot_valid 1140101001 = Inr True
   \<and> shot_to_date 1140101001 = Inr \<lparr>year = 2014, month = 1, day = 1\<rparr>"
  by (simp add: shot_valid_def shot_to_date_def datetime_date_def days_in_month_def)

text \<open>
  Claim C10: \<open>shot_valid\<close> returns a boolean for every integer and never raises; when
  the decoding of the date raises, the result is false.
\<close>

theorem shot_valid_total:
  "(\<exists>b. shot_valid shot = Inr b)
   \<and> (\<forall>e. shot_to_date shot = Inl e \<longrightarrow> shot_valid shot = Inr False)"
  by (auto simp: shot_valid_def split: sum.splits)

theorem shot_valid_total_witness:
  "shot_to_date 1141301001 = Inl ValueError \<and> shot_valid 1141301001 = Inr False
   \<and> shot_to_date 1140001001 = Inl ValueError \<and> shot_valid 1140001001 = Inr False
   \<and> shot_to_date 1140100001 = Inl ValueError \<and> shot_valid 1140100001 = Inr False"
proof -
  have a: "shot_to_date 1141301001 = Inl ValueError"
    "shot_to_date 1140001001 = Inl ValueError" "shot_to_date 1140100001 = Inl ValueError"
    by (simp_all add: shot_to_date_def datetime_date_def days_in_month_def)
  show ?thesis
    using a shot_valid_total [of 1141301001] shot_valid_total [of 1140001001]
      shot_valid_total [of 1140100001] by simp
qed

subsection \<open>The session table\<close>

lemma and_then_apply:
  "and_then m f s = (case m s of (Inl e, s') \<Rightarrow> (Inl e, s') | (Inr x, s') \<Rightarrow> f x s')"
  by (simp add: and_then_def)

lemma try_except_apply:
  "try_except m h s = (case m s of (Inl e, s') \<Rightarrow> h s' | (Inr x, s') \<Rightarrow> (Inr x, s'))"
  by (simp add: try_except_def)

lemma returns_apply: "returns x s = (Inr x, s)"
  by (simp add: returns_def)

lemma raise_apply: "raise e s = (Inl e, s)"
  by (simp add: raise_def)

lemma lift_apply: "lift r s = (r, s)"
  by (simp add: lift_def)

lemmas io_simps = and_then_apply try_except_apply returns_apply raise_apply lift_apply

lemma get_svr_cached_cases:
  obtains (absent) "get_svr_cached svr s = (None, None, None)"
      "SVR_CONNS s svr = None \<or> SVR_TREES s svr = None \<or> SVR_SHOTS s svr = None"
    | (present) c t n where "get_svr_cached svr s = (Some c, Some t, Some n)"
      "SVR_CONNS s svr = Some c" "SVR_TREES s svr = Some t" "SVR_SHOTS s svr = Some n"
  by (cases "SVR_CONNS s svr"; cases "SVR_TREES s svr"; cases "SVR_SHOTS s svr")
    (auto simp: get_svr_cached_def)

lemma get_connection_present:
  assumes "get_svr_cached (get_server_for_shot shot s) s = (Some c, Some t, Some n)"
  shows "get_connection env shot tree s =
     (if Some tree \<noteq> Some t \<or> Some shot \<noteq> Some n
      then (let s1 = log (ECloseAllTrees c (close_ok env (trace s) c)) s;
                ok = open_ok env (trace s1) c tree shot;
                s2 = log (EOpenTree c tree shot ok) s1
            in if ok then (Inr c, snd (update_svr_cache (get_server_for_shot shot s) c tree shot s2))
               else (Inl MdsError, s2))
      else (Inr c, snd (update_svr_cache (get_server_for_shot shot s) c tree shot s)))"
  by (simp add: get_connection_def assms io_simps closeAllTrees_def openTree_def Let_def
      update_svr_cache_def)

lemma get_connection_absent:
  assumes "get_svr_cached (get_server_for_shot shot s) s = (None, None, None)"
  shows "get_connection env shot tree s =
     (let svr = get_server_for_shot shot s
      in if connect_ok env (trace s) svr
         then (let c = next_conn s;
                   s0 = (log (EConnect svr (Some c)) s)\<lparr>next_conn := Suc c\<rparr>;
                   s1 = log (ECloseAllTrees c (close_ok env (trace s0) c)) s0;
                   ok = open_ok env (trace s1) c tree shot;
                   s2 = log (EOpenTree c tree shot ok) s1
               in if ok then (Inr c, snd (update_svr_cache svr c tree shot s2))
                  else (Inl MdsError, s2))
         else (Inl MdsError, log (EConnect svr None) s))"
  by (simp add: get_connection_def assms io_simps mds_Connection_def closeAllTrees_def
      openTree_def Let_def update_svr_cache_def)


lemma get_connection_ok:
  assumes "get_connection env shot tree s = (Inr c, s1)"
  shows "SVR_CONNS s1 (get_server_for_shot shot s) = Some c"
    and "SVR_TREES s1 (get_server_for_shot shot s) = Some tree"
    and "SVR_SHOTS s1 (get_server_for_shot shot s) = Some shot"
    and "today s1 = today s"
    and "length (filter is_open_tree (events_since s s1)) \<le> 1"
proof -
  let ?svr = "get_server_for_shot shot s"
  have "SVR_CONNS s1 ?svr = Some c \<and> SVR_TREES s1 ?svr = Some tree
      \<and> SVR_SHOTS s1 ?svr = Some shot \<and> today s1 = today s
      \<and> length (filter is_open_tree (events_since s s1)) \<le> 1"
  proof (cases rule: get_svr_cached_cases [of ?svr s])
    case absent
    show ?thesis
      using assms unfolding get_connection_absent [OF absent(1)]
      by (auto simp: Let_def update_svr_cache_def log_def events_since_def split: if_splits)
  next
    case (present c0 t n)
    show ?thesis
      using assms unfolding get_connection_present [OF present(1)]
      by (auto simp: Let_def update_svr_cache_def log_def events_since_def split: if_splits)
  qed
  then show "SVR_CONNS s1 ?svr = Some c" "SVR_TREES s1 ?svr = Some tree"
    "SVR_SHOTS s1 ?svr = Some shot" "today s1 = today s"
    "length (filter is_open_tree (events_since s s1)) \<le> 1"
    by simp_all
qed

lemma get_connection_hit:
  assumes "SVR_CONNS s (get_server_for_shot shot s) = Some c"
    and "SVR_TREES s (get_server_for_shot shot s) = Some tree"
    and "SVR_SHOTS s (get_server_for_shot shot s) = Some shot"
  shows "get_connection env shot tree s = (Inr c, s)"
proof -
  let ?svr = "get_server_for_shot shot s"
  have c: "get_svr_cached ?svr s = (Some c, Some tree, Some shot)"
    using assms by (simp add: get_svr_cached_def)
  show ?thesis
    unfolding get_connection_present [OF c]
    using assms by (simp add: update_svr_cache_def fun_upd_idem)
qed

lemma get_server_for_shot_today:
  "today s' = today s \<Longrightarrow> get_server_for_shot shot s' = get_server_for_shot shot s"
  by (simp add: get_server_for_shot_def)

text \<open>
  Claim C3: when a call of \<open>get_connection\<close> has returned, the same call again returns
  the same connection and leaves the whole state as it is, trace included: it sends neither
  \<open>closeAllTrees\<close> nor \<open>openTree\<close>. The first call has sent \<open>openTree\<close> at most once.
\<close>

theorem get_connection_repeat:
  assumes "get_connection env shot tree s = (Inr c, s1)"
  shows "get_connection env shot tree s1 = (Inr c, s1)
       \<and> events_since s1 (snd (get_connection env shot tree s1)) = []
       \<and> length (filter is_open_tree (events_since s s1)) \<le> 1"
proof -
  note ok = get_connection_ok [OF assms]
  have svr: "get_server_for_shot shot s1 = get_server_for_shot shot s"
    using ok(4) by (rule get_server_for_shot_today)
  have again: "get_connection env shot tree s1 = (Inr c, s1)"
    using ok(1,2,3) by (intro get_connection_hit) (simp_all add: svr)
  show ?thesis
    using again ok(5) by (simp add: events_since_def)
qed

lemma demo_first_connection:
  "get_connection demo_env 1140101001 ''mst'' boot = (Inr 0, dave_session)"
proof -
  have svr: "get_server_for_shot 1140101001 boot = ''dave.physics.wisc.edu''"
    by (simp add: get_server_for_shot_def boot_def min_shot_for_date_def)
  have a: "get_svr_cached (get_server_for_shot 1140101001 boot) boot = (None, None, None)"
    by (simp add: get_svr_cached_def boot_def)
  show ?thesis
    unfolding get_connection_absent [OF a] svr
    by (simp add: boot_def dave_session_def demo_env_def log_def update_svr_cache_def Let_def)
qed

theorem get_connection_repeat_witness:
  "get_connection demo_env 1140101001 ''mst'' boot = (Inr 0, dave_session)
   \<and> get_connection demo_env 1140101001 ''mst'' dave_session = (Inr 0, dave_session)
   \<and> filter is_open_tree (trace dave_session) = [EOpenTree 0 ''mst'' 1140101001 True]"
proof -
  have t: "filter is_open_tree (trace dave_session) = [EOpenTree 0 ''mst'' 1140101001 True]"
    by (simp add: dave_session_def)
  have b: "get_connection demo_env 1140101001 ''mst'' dave_session = (Inr 0, dave_session)"
    using get_connection_repeat [OF demo_first_connection] by (rule conjunct1)
  show ?thesis
    using demo_first_connection b t by (intro conjI)
qed

text \<open>
  Claim C4: when the table records a connection with an open pair for the server of the
  shot and the requested pair differs, \<open>get_connection\<close> sends \<open>closeAllTrees\<close> and then
  \<open>openTree\<close> of the requested pair on that connection and nothing else; whether the
  close fails has no influence on the result; a failed open raises and leaves the table
  as it was; after a successful open the table records the requested pair.
\<close>

theorem get_connection_switch:
  assumes "SVR_CONNS s (get_server_for_shot shot s) = Some c"
    and "SVR_TREES s (get_server_for_shot shot s) = Some t"
    and "SVR_SHOTS s (get_server_for_shot shot s) = Some n"
    and "(t, n) \<noteq> (tree, shot)"
  shows "let svr = get_server_for_shot shot s;
             closed = close_ok env (trace s) c;
             opened = open_ok env (trace s @ [ECloseAllTrees c closed]) c tree shot;
             r = get_connection env shot tree s
         in trace (snd r) = trace s @ [ECloseAllTrees c closed, EOpenTree c tree shot opened]
          \<and> fst r = (if opened then Inr c else Inl MdsError)
          \<and> SVR_CONNS (snd r) = SVR_CONNS s
          \<and> SVR_TREES (snd r) = (if opened then (SVR_TREES s)(svr \<mapsto> tree) else SVR_TREES s)
          \<and> SVR_SHOTS (snd r) = (if opened then (SVR_SHOTS s)(svr \<mapsto> shot) else SVR_SHOTS s)"
proof -
  have p: "get_svr_cached (get_server_for_shot shot s) s = (Some c, Some t, Some n)"
    using assms(1,2,3) by (simp add: get_svr_cached_def)
  have d: "tree \<noteq> t \<or> shot \<noteq> n"
    using assms(4) by auto
  have k: "(SVR_CONNS s)(get_server_for_shot shot s \<mapsto> c) = SVR_CONNS s"
    using assms(1) by (simp add: fun_upd_idem)
  show ?thesis
    unfolding get_connection_present [OF p]
    using d k by (simp add: Let_def log_def update_svr_cache_def)
qed

theorem get_connection_switch_witness:
  "let r = get_connection demo_env 1140101002 ''mst'' dave_session
   in SVR_SHOTS dave_session ''dave.physics.wisc.edu'' = Some 1140101001
    \<and> fst r = Inr 0
    \<and> trace (snd r) =
        trace dave_session @ [ECloseAllTrees 0 True, EOpenTree 0 ''mst'' 1140101002 True]
    \<and> SVR_SHOTS (snd r) ''dave.physics.wisc.edu'' = Some 1140101002"
proof -
  let ?s = dave_session
  have svr: "get_server_for_shot 1140101002 ?s = ''dave.physics.wisc.edu''"
    by (simp add: get_server_for_shot_def dave_session_def min_shot_for_date_def)
  have a: "SVR_CONNS ?s (get_server_for_shot 1140101002 ?s) = Some 0"
    "SVR_TREES ?s (get_server_for_shot 1140101002 ?s) = Some ''mst''"
    "SVR_SHOTS ?s (get_server_for_shot 1140101002 ?s) = Some 1140101001"
    unfolding svr by (simp_all add: dave_session_def)
  have b: "(''mst'', 1140101001::int) \<noteq> (''mst'', 1140101002)"
    by simp
  have c: "close_ok demo_env (trace ?s) 0"
    "open_ok demo_env (trace ?s @ [ECloseAllTrees 0 True]) 0 ''mst'' 1140101002"
    by (simp_all add: dave_session_def demo_env_def)
  show ?thesis
    using get_connection_switch [OF a b, of demo_env] a(3) c
    unfolding svr by (simp add: Let_def)
qed

subsection \<open>The result cache\<close>

lemma load_from_cache_apply:
  "load_from_cache env tree shot expr s =
     (case nodes s (cache_file env tree shot expr) of
        Some (File (Pickled v)) \<Rightarrow> Inr v
      | Some (File Garbage) \<Rightarrow> Inl UnpicklingError
      | _ \<Rightarrow> Inl IOError,
      log (FsOpenRead (cache_file env tree shot expr)) s)"
  by (simp add: load_from_cache_def cache_file_def open_rb_def cPickle_load_def io_simps
      Let_def split: prod.split option.split node.split content.split)

lemma load_from_cache_state:
  "snd (load_from_cache env tree shot expr s) = log (FsOpenRead (cache_file env tree shot expr)) s"
  by (simp add: load_from_cache_apply)

lemma load_from_cache_Inr:
  "load_from_cache env tree shot expr s = (Inr v, s1) \<longleftrightarrow>
     nodes s (cache_file env tree shot expr) = Some (File (Pickled v))
     \<and> s1 = log (FsOpenRead (cache_file env tree shot expr)) s"
  by (auto simp: load_from_cache_apply split: option.splits node.splits content.splits)

lemma cache_lookup_unused: "cache_lookup env False tree shot expr s = (Inr None, s)"
  by (simp add: cache_lookup_def io_simps)

lemma cache_lookup_hit:
  "load_from_cache env tree shot expr s = (Inr v, s1) \<Longrightarrow>
   cache_lookup env True tree shot expr s = (Inr (Some v), s1)"
  by (simp add: cache_lookup_def io_simps)

lemma cache_lookup_miss:
  "load_from_cache env tree shot expr s = (Inl e, s1) \<Longrightarrow>
   cache_lookup env True tree shot expr s = (Inr None, s1)"
  by (simp add: cache_lookup_def io_simps)

lemma get_signal_hit:
  "load_from_cache env tree shot (signal_expr signal) s = (Inr v, s1) \<Longrightarrow>
   get_signal env shot signal tree True s = (Inr v, s1)"
  by (simp add: get_signal_def cache_lookup_hit io_simps Let_def)

lemma get_signal_miss:
  "load_from_cache env tree shot (signal_expr signal) s = (Inl e, s1) \<Longrightarrow>
   get_signal env shot signal tree True s =
     then_save env tree shot (signal_expr signal) (get_signal env shot signal tree False s1)"
  by (simp add: get_signal_def cache_lookup_miss cache_lookup_unused io_simps then_save_def
      py_assert_def Let_def split: prod.split sum.split)

lemma get_signal_units_hit:
  "load_from_cache env tree shot (units_expr signal) s = (Inr v, s1) \<Longrightarrow>
   get_signal_units env shot signal tree True s = (Inr v, s1)"
  by (simp add: get_signal_units_def cache_lookup_hit io_simps Let_def)

lemma get_signal_units_miss:
  "load_from_cache env tree shot (units_expr signal) s = (Inl e, s1) \<Longrightarrow>
   get_signal_units env shot signal tree True s =
     then_save env tree shot (units_expr signal) (get_signal_units env shot signal tree False s1)"
  by (simp add: get_signal_units_def cache_lookup_miss cache_lookup_unused io_simps then_save_def
      Let_def split: prod.split sum.split)

lemma save_to_cache_ok:
  assumes "save_to_cache env tree shot expr v s = (Inr u, s1)"
  shows "nodes s1 (cache_file env tree shot expr) = Some (File (Pickled v))"
  using assms
  by (auto simp: save_to_cache_def cache_file_def io_simps os_path_exists_def os_makedirs_def
      open_wb_def cPickle_dump_def log_def Let_def
      split: prod.splits sum.splits if_splits)

lemmas model_defs =
  get_signal_def get_signal_units_def cache_lookup_def load_from_cache_def save_to_cache_def
  cache_file_def cache_path_def py_str_def digits.simps digit_char_def expanduser_def
  rstrip_slash_def signal_expr_def units_expr_def os_path_join_def os_path_exists_def
  os_makedirs_def open_rb_def open_wb_def cPickle_load_def cPickle_dump_def py_format_def
  get_connection_def get_server_for_shot_def min_shot_for_date_def get_svr_cached_def
  update_svr_cache_def mds_Connection_def closeAllTrees_def openTree_def conn_get_def
  unpack2_def py_assert_def isinstance_ndarray_def log_def Let_def and_then_def
  try_except_def returns_def raise_def lift_def then_save_def events_since_def
  current_shot_def current_shot_expr_def

lemmas demo_defs = demo_env_def boot_def dave_session_def demo_pair_def

lemma log_fields:
  "nodes (log e s) = nodes s" "faults (log e s) = faults s" "today (log e s) = today s"
  "SVR_CONNS (log e s) = SVR_CONNS s" "SVR_TREES (log e s) = SVR_TREES s"
  "SVR_SHOTS (log e s) = SVR_SHOTS s" "AURORA (log e s) = AURORA s"
  "next_conn (log e s) = next_conn s" "trace (log e s) = trace s @ [e]"
  by (simp_all add: log_def)

lemma events_since_append:
  "trace s' = trace s @ evs \<Longrightarrow> events_since s s' = evs"
  by (simp add: events_since_def)

lemma events_since_log: "events_since s (log e s) = [e]"
  by (simp add: events_since_def log_def)

text \<open>
  Claim C2: when \<open>get_signal\<close> with \<open>use_cache=True\<close> has returned a result, the cache
  file of the query holds the pickle of that result, and the same call again returns the
  same result; all it does is open that file for reading: the state is otherwise
  unchanged and the trace gains no request to the remote service.
\<close>

theorem get_signal_cached_twice:
  assumes "get_signal env shot signal tree True s = (Inr r, s1)"
  shows "nodes s1 (cache_file env tree shot (signal_expr signal)) = Some (File (Pickled r))
       \<and> get_signal env shot signal tree True s1 =
            (Inr r, log (FsOpenRead (cache_file env tree shot (signal_expr signal))) s1)
       \<and> filter is_net (events_since s1 (snd (get_signal env shot signal tree True s1))) = []"
proof -
  let ?p = "cache_file env tree shot (signal_expr signal)"
  let ?s0 = "log (FsOpenRead ?p) s"
  obtain x where l: "load_from_cache env tree shot (signal_expr signal) s = (x, ?s0)"
    by (simp add: load_from_cache_apply)
  have f: "nodes s1 ?p = Some (File (Pickled r))"
  proof (cases x)
    case (Inr v)
    have "get_signal env shot signal tree True s = (Inr v, ?s0)"
      using l Inr by (simp add: get_signal_hit)
    then have "v = r" "s1 = ?s0"
      using assms by simp_all
    then show ?thesis
      using l Inr by (simp add: load_from_cache_Inr log_fields)
  next
    case (Inl e)
    have "then_save env tree shot (signal_expr signal)
            (get_signal env shot signal tree False ?s0) = (Inr r, s1)"
      using l Inl assms by (simp add: get_signal_miss)
    then obtain u s2 where "save_to_cache env tree shot (signal_expr signal) r s2 = (Inr u, s1)"
      by (auto simp: then_save_def split: prod.splits sum.splits)
    then show ?thesis
      by (rule save_to_cache_ok)
  qed
  have "load_from_cache env tree shot (signal_expr signal) s1 = (Inr r, log (FsOpenRead ?p) s1)"
    using f by (simp add: load_from_cache_Inr)
  then have g: "get_signal env shot signal tree True s1 = (Inr r, log (FsOpenRead ?p) s1)"
    by (rule get_signal_hit)
  show ?thesis
    using f g by (simp add: events_since_log)
qed

lemma demo_signal_file:
  "cache_file demo_env ''mst'' 1140101001 (signal_expr ''ip'') =
     ''/home/mst/.mdsplus_cache/mst/1140101001/5d41[if_''"
  by (simp add: model_defs demo_defs)

lemma demo_first_get_signal:
  "fst (get_signal demo_env 1140101001 ''ip'' ''mst'' True boot) = Inr demo_pair"
  by (simp add: model_defs demo_defs)

theorem get_signal_cached_twice_witness:
  "fst (get_signal demo_env 1140101001 ''ip'' ''mst'' True boot) = Inr demo_pair
   \<and> (let s1 = snd (get_signal demo_env 1140101001 ''ip'' ''mst'' True boot);
           r2 = get_signal demo_env 1140101001 ''ip'' ''mst'' True s1
       in nodes s1 ''/home/mst/.mdsplus_cache/mst/1140101001/5d41[if_''
            = Some (File (Pickled demo_pair))
        \<and> fst r2 = Inr demo_pair
        \<and> trace (snd r2) =
            trace s1 @ [FsOpenRead ''/home/mst/.mdsplus_cache/mst/1140101001/5d41[if_''])"
proof -
  let ?s1 = "snd (get_signal demo_env 1140101001 ''ip'' ''mst'' True boot)"
  have h: "get_signal demo_env 1140101001 ''ip'' ''mst'' True boot = (Inr demo_pair, ?s1)"
    using demo_first_get_signal by (simp add: prod_eq_iff)
  show ?thesis
    using get_signal_cached_twice [OF h] demo_first_get_signal
    by (simp add: demo_signal_file log_fields Let_def)
qed

subsection \<open>Retrieval without the cache\<close>

lemma off_diskD:
  assumes "off_disk m"
  shows "nodes (snd (m s)) = nodes s"
    and "\<exists>evs. trace (snd (m s)) = trace s @ evs \<and> list_all is_net evs"
  using assms by (simp_all add: off_disk_def)

lemma off_disk_returns: "off_disk (returns x)"
  by (simp add: off_disk_def returns_def)

lemma off_disk_raise: "off_disk (raise e)"
  by (simp add: off_disk_def raise_def)

lemma off_disk_lift: "off_disk (lift r)"
  by (simp add: off_disk_def lift_def)

lemma off_disk_py_assert: "off_disk (py_assert b)"
  by (simp add: py_assert_def off_disk_returns off_disk_raise)

lemma off_disk_and_then:
  assumes "off_disk m" "\<And>x. off_disk (f x)"
  shows "off_disk (and_then m f)"
  unfolding off_disk_def
proof
  fix s
  obtain y s1 where ms: "m s = (y, s1)"
    by (cases "m s")
  have n1: "nodes s1 = nodes s"
    using off_diskD(1) [OF assms(1), of s] ms by simp
  obtain e1 where e1: "trace s1 = trace s @ e1" "list_all is_net e1"
    using off_diskD(2) [OF assms(1), of s] ms by auto
  show "nodes (snd (and_then m f s)) = nodes s
      \<and> (\<exists>evs. trace (snd (and_then m f s)) = trace s @ evs \<and> list_all is_net evs)"
  proof (cases y)
    case (Inl e)
    then show ?thesis
      using ms n1 e1 by (simp add: and_then_def)
  next
    case (Inr x)
    obtain e2 where e2: "trace (snd (f x s1)) = trace s1 @ e2" "list_all is_net e2"
      using off_diskD(2) [OF assms(2)] by blast
    have "trace (snd (f x s1)) = trace s @ (e1 @ e2)" "list_all is_net (e1 @ e2)"
      using e1 e2 by simp_all
    then show ?thesis
      using ms Inr n1 off_diskD(1) [OF assms(2), of x s1] by (auto simp: and_then_def)
  qed
qed

lemma off_disk_conn_get: "off_disk (conn_get env k expr)"
  by (auto simp: off_disk_def conn_get_def log_def split: option.splits)

lemma off_disk_get_connection: "off_disk (get_connection env shot tree)"
  unfolding off_disk_def
proof
  fix s
  let ?s' = "snd (get_connection env shot tree s)"
  show "nodes ?s' = nodes s \<and> (\<exists>evs. trace ?s' = trace s @ evs \<and> list_all is_net evs)"
  proof (cases rule: get_svr_cached_cases [of "get_server_for_shot shot s" s])
    case absent
    show ?thesis
      unfolding get_connection_absent [OF absent(1)]
      by (auto simp: Let_def update_svr_cache_def log_def)
  next
    case (present c0 t n)
    show ?thesis
      unfolding get_connection_present [OF present(1)]
      by (auto simp: Let_def update_svr_cache_def log_def)
  qed
qed

lemma off_disk_get_signal: "off_disk (get_signal env shot signal tree False)"
  by (simp add: get_signal_def cache_lookup_def Let_def off_disk_and_then off_disk_returns
      off_disk_get_connection off_disk_conn_get off_disk_lift off_disk_py_assert
      split: option.split prod.split)

lemma off_disk_get_signal_units: "off_disk (get_signal_units env shot signal tree False)"
  by (simp add: get_signal_units_def cache_lookup_def Let_def off_disk_and_then off_disk_returns
      off_disk_get_connection off_disk_conn_get off_disk_lift
      split: option.split prod.split)

text \<open>
  With \<open>use_cache=False\<close> neither retrieval function reads or changes the file
  system; every event they add to the trace is a request to the remote service.
\<close>

lemma uncached_leaves_disk:
  "nodes (snd (get_signal env shot signal tree False s)) = nodes s
   \<and> list_all is_net (events_since s (snd (get_signal env shot signal tree False s)))
   \<and> nodes (snd (get_signal_units env shot signal tree False s)) = nodes s
   \<and> list_all is_net (events_since s (snd (get_signal_units env shot signal tree False s)))"
proof -
  obtain e1 where "trace (snd (get_signal env shot signal tree False s)) = trace s @ e1"
      "list_all is_net e1"
    using off_diskD(2) [OF off_disk_get_signal] by blast
  moreover obtain e2 where
      "trace (snd (get_signal_units env shot signal tree False s)) = trace s @ e2"
      "list_all is_net e2"
    using off_diskD(2) [OF off_disk_get_signal_units] by blast
  ultimately show ?thesis
    using off_diskD(1) [OF off_disk_get_signal] off_diskD(1) [OF off_disk_get_signal_units]
    by (simp add: events_since_def)
qed

lemma get_connection_raises_logged:
  assumes "get_connection env shot tree s = (Inl e, s1)"
  shows "events_since s s1 \<noteq> []"
proof (cases rule: get_svr_cached_cases [of "get_server_for_shot shot s" s])
  case absent
  show ?thesis
    using assms unfolding get_connection_absent [OF absent(1)]
    by (auto simp: Let_def log_def events_since_def split: if_splits)
next
  case (present c0 t n)
  show ?thesis
    using assms unfolding get_connection_present [OF present(1)]
    by (auto simp: Let_def log_def events_since_def split: if_splits)
qed

lemma get_signal_uncached_state:
  assumes "get_connection env shot tree s = (Inr c, s1)"
  shows "snd (get_signal env shot signal tree False s) =
     log (EGet c (signal_expr signal) (get_reply env (trace s1) c (signal_expr signal))) s1"
  using assms
  by (simp add: get_signal_def cache_lookup_unused io_simps Let_def conn_get_def py_assert_def
      split: option.split sum.split prod.split)

lemma get_signal_units_uncached_state:
  assumes "get_connection env shot tree s = (Inr c, s1)"
    and "py_format env (units_expr signal) signal = Inr sent"
  shows "snd (get_signal_units env shot signal tree False s) =
     log (EGet c sent (get_reply env (trace s1) c sent)) s1"
  using assms
  by (simp add: get_signal_units_def cache_lookup_unused io_simps Let_def conn_get_def
      split: option.split sum.split prod.split)

lemma events_since_grown:
  assumes "trace s1 = trace s @ evs"
  shows "events_since s (log e s1) = evs @ [e]"
  using assms by (simp add: events_since_def log_def)

text \<open>
  With \<open>use_cache=False\<close>, \<open>get_signal\<close> always sends a request to the remote service,
  and when \<open>get_connection\<close> returns a connection the query is sent on it. The same holds
  for \<open>get_signal_units\<close> when the second formatting of its expression returns.
\<close>

lemma get_signal_uncached_contacts:
  "list_ex is_net (events_since s (snd (get_signal env shot signal tree False s)))"
proof -
  obtain y s1 where gc: "get_connection env shot tree s = (y, s1)"
    by (cases "get_connection env shot tree s")
  obtain e1 where e1: "trace s1 = trace s @ e1" "list_all is_net e1"
    using off_diskD(2) [OF off_disk_get_connection, of env shot tree s] gc by auto
  show ?thesis
  proof (cases y)
    case (Inl e)
    have "get_connection env shot tree s = (Inl e, s1)"
      using gc Inl by simp
    then have "events_since s s1 \<noteq> []"
      by (rule get_connection_raises_logged)
    moreover have "events_since s s1 = e1"
      using e1(1) by (rule events_since_append)
    moreover have "snd (get_signal env shot signal tree False s) = s1"
      using gc Inl by (simp add: get_signal_def cache_lookup_unused io_simps Let_def)
    ultimately show ?thesis
      using e1(2) by (cases e1) (simp_all add: list_ex_iff)
  next
    case (Inr c)
    show ?thesis
      using gc Inr e1(1)
      by (simp add: get_signal_uncached_state events_since_grown list_ex_iff)
  qed
qed

lemma get_signal_units_uncached_contacts:
  assumes "CHR ''{'' \<notin> set signal" "CHR ''}'' \<notin> set signal"
  shows "list_ex is_net (events_since s (snd (get_signal_units env shot signal tree False s)))"
proof -
  have fmt: "py_format env (units_expr signal) signal = Inr (units_expr signal)"
    using assms by (simp add: py_format_def units_expr_def)
  obtain y s1 where gc: "get_connection env shot tree s = (y, s1)"
    by (cases "get_connection env shot tree s")
  obtain e1 where e1: "trace s1 = trace s @ e1" "list_all is_net e1"
    using off_diskD(2) [OF off_disk_get_connection, of env shot tree s] gc by auto
  show ?thesis
  proof (cases y)
    case (Inl e)
    have "get_connection env shot tree s = (Inl e, s1)"
      using gc Inl by simp
    then have "events_since s s1 \<noteq> []"
      by (rule get_connection_raises_logged)
    moreover have "events_since s s1 = e1"
      using e1(1) by (rule events_since_append)
    moreover have "snd (get_signal_units env shot signal tree False s) = s1"
      using gc Inl by (simp add: get_signal_units_def cache_lookup_unused io_simps Let_def)
    ultimately show ?thesis
      using e1(2) by (cases e1) (simp_all add: list_ex_iff)
  next
    case (Inr c)
    show ?thesis
      using gc Inr e1(1) fmt
      by (simp add: get_signal_units_uncached_state events_since_grown list_ex_iff)
  qed
qed

lemma save_to_cache_grows:
  "\<exists>evs. trace (snd (save_to_cache env tree shot expr v s)) = trace s @ evs"
  by (auto simp: save_to_cache_def io_simps os_path_exists_def os_makedirs_def open_wb_def
      cPickle_dump_def log_def Let_def split: prod.splits)

lemma then_save_grows:
  "\<exists>evs. trace (snd (then_save env tree shot expr r)) = trace (snd r) @ evs"
proof (cases r)
  case (Pair y s1)
  show ?thesis
  proof (cases y)
    case (Inl e)
    then show ?thesis using Pair by (simp add: then_save_def)
  next
    case (Inr v)
    obtain evs where "trace (snd (save_to_cache env tree shot expr v s1)) = trace s1 @ evs"
      using save_to_cache_grows by blast
    then show ?thesis
      using Pair Inr by (auto simp: then_save_def split: prod.splits sum.splits)
  qed
qed

lemma contacts_after_miss:
  assumes "list_ex is_net (events_since s1 (snd r))"
    and "trace s1 = trace s @ [e]"
    and "\<exists>evs. trace (snd r) = trace s1 @ evs"
  shows "list_ex is_net (events_since s (snd (then_save env tree shot expr r)))"
proof -
  obtain e1 where e1: "trace (snd r) = trace s1 @ e1"
    using assms(3) by blast
  obtain e2 where e2: "trace (snd (then_save env tree shot expr r)) = trace (snd r) @ e2"
    using then_save_grows by blast
  have "events_since s1 (snd r) = e1"
    using e1 by (rule events_since_append)
  then have "list_ex is_net e1"
    using assms(1) by simp
  moreover have "events_since s (snd (then_save env tree shot expr r)) = e # e1 @ e2"
    using e1 e2 assms(2) by (simp add: events_since_def)
  ultimately show ?thesis
    by (auto simp: list_ex_iff)
qed

text \<open>
  Claim C6: whatever exception the load of the cache file raises (no file, a directory, an
  inaccessible node, contents that do not unpickle), \<open>get_signal\<close> and \<open>get_signal_units\<close>
  with \<open>use_cache=True\<close> do not raise it: from the state after the attempt to read they
  do exactly what the call with \<open>use_cache=False\<close> does, followed by the save of its
  result. \<open>get_signal\<close> then sends at least one request to the remote service, and so
  does \<open>get_signal_units\<close> for a signal name without braces.
\<close>

theorem cache_read_failure_is_miss:
  "(load_from_cache env tree shot (signal_expr signal) s = (Inl e, s1) \<longrightarrow>
      get_signal env shot signal tree True s =
        then_save env tree shot (signal_expr signal)
          (get_signal env shot signal tree False s1)
      \<and> list_ex is_net (events_since s (snd (get_signal env shot signal tree True s))))
   \<and> (load_from_cache env tree shot (units_expr signal) s = (Inl e', s1') \<longrightarrow>
      get_signal_units env shot signal tree True s =
        then_save env tree shot (units_expr signal)
          (get_signal_units env shot signal tree False s1')
      \<and> (CHR ''{'' \<notin> set signal \<and> CHR ''}'' \<notin> set signal \<longrightarrow>
           list_ex is_net (events_since s (snd (get_signal_units env shot signal tree True s)))))"
proof -
  have a: "list_ex is_net (events_since s (snd (get_signal env shot signal tree True s)))"
    if l: "load_from_cache env tree shot (signal_expr signal) s = (Inl e, s1)"
  proof -
    have t: "trace s1 = trace s @ [FsOpenRead (cache_file env tree shot (signal_expr signal))]"
      using l by (auto simp: load_from_cache_apply log_def)
    have g: "\<exists>evs. trace (snd (get_signal env shot signal tree False s1)) = trace s1 @ evs"
      using off_diskD(2) [OF off_disk_get_signal] by blast
    show ?thesis
      unfolding get_signal_miss [OF l]
      using get_signal_uncached_contacts t g by (rule contacts_after_miss)
  qed
  have b: "list_ex is_net (events_since s (snd (get_signal_units env shot signal tree True s)))"
    if l: "load_from_cache env tree shot (units_expr signal) s = (Inl e', s1')"
      and n: "CHR ''{'' \<notin> set signal" "CHR ''}'' \<notin> set signal"
  proof -
    have t: "trace s1' = trace s @ [FsOpenRead (cache_file env tree shot (units_expr signal))]"
      using l by (auto simp: load_from_cache_apply log_def)
    have g: "\<exists>evs. trace (snd (get_signal_units env shot signal tree False s1')) = trace s1' @ evs"
      using off_diskD(2) [OF off_disk_get_signal_units] by blast
    show ?thesis
      unfolding get_signal_units_miss [OF l]
      using get_signal_units_uncached_contacts [OF n] t g by (rule contacts_after_miss)
  qed
  show ?thesis
    using a b by (simp add: get_signal_miss get_signal_units_miss)
qed

lemma demo_units_file:
  "cache_file demo_env ''mst'' 1140101001 (units_expr ''ip'') =
     ''/home/mst/.mdsplus_cache/mst/1140101001/5d41unit''"
  by (simp add: model_defs demo_defs)

theorem cache_read_failure_is_miss_witness:
  "fst (load_from_cache demo_env ''mst'' 1140101001 (signal_expr ''ip'') corrupt_cache)
     = Inl UnpicklingError
   \<and> fst (get_signal demo_env 1140101001 ''ip'' ''mst'' True corrupt_cache) = Inr demo_pair
   \<and> list_ex is_net (events_since corrupt_cache
        (snd (get_signal demo_env 1140101001 ''ip'' ''mst'' True corrupt_cache)))
   \<and> fst (load_from_cache demo_env ''mst'' 1140101001 (units_expr ''ip'') corrupt_cache)
     = Inl UnpicklingError
   \<and> fst (get_signal_units demo_env 1140101001 ''ip'' ''mst'' True corrupt_cache)
     = Inr (PyStr ''t0y0'')
   \<and> list_ex is_net (events_since corrupt_cache
        (snd (get_signal_units demo_env 1140101001 ''ip'' ''mst'' True corrupt_cache)))"
proof -
  let ?l = "load_from_cache demo_env ''mst'' 1140101001 (signal_expr ''ip'') corrupt_cache"
  let ?l' = "load_from_cache demo_env ''mst'' 1140101001 (units_expr ''ip'') corrupt_cache"
  have a: "fst ?l = Inl UnpicklingError" "fst ?l' = Inl UnpicklingError"
    by (simp_all add: load_from_cache_apply corrupt_cache_def demo_signal_file demo_units_file)
  then have h: "?l = (Inl UnpicklingError, snd ?l)" "?l' = (Inl UnpicklingError, snd ?l')"
    by (simp_all add: prod_eq_iff)
  have b: "fst (then_save demo_env ''mst'' 1140101001 (signal_expr ''ip'')
           (get_signal demo_env 1140101001 ''ip'' ''mst'' False (snd ?l))) = Inr demo_pair"
    by (simp add: load_from_cache_state)
      (simp add: model_defs demo_defs corrupt_cache_def)
  have c: "fst (then_save demo_env ''mst'' 1140101001 (units_expr ''ip'')
           (get_signal_units demo_env 1140101001 ''ip'' ''mst'' False (snd ?l')))
         = Inr (PyStr ''t0y0'')"
    by (simp add: load_from_cache_state)
      (simp add: model_defs demo_defs corrupt_cache_def)
  have n: "CHR ''{'' \<notin> set ''ip'' \<and> CHR ''}'' \<notin> set ''ip''"
    by simp
  note t = cache_read_failure_is_miss
      [of demo_env "''mst''" 1140101001 "''ip''" corrupt_cache UnpicklingError "snd ?l"
        UnpicklingError "snd ?l'"]
  have g: "get_signal demo_env 1140101001 ''ip'' ''mst'' True corrupt_cache =
      then_save demo_env ''mst'' 1140101001 (signal_expr ''ip'')
        (get_signal demo_env 1140101001 ''ip'' ''mst'' False (snd ?l))"
    "list_ex is_net (events_since corrupt_cache
        (snd (get_signal demo_env 1140101001 ''ip'' ''mst'' True corrupt_cache)))"
    using t h(1) by blast+
  have u: "get_signal_units demo_env 1140101001 ''ip'' ''mst'' True corrupt_cache =
      then_save demo_env ''mst'' 1140101001 (units_expr ''ip'')
        (get_signal_units demo_env 1140101001 ''ip'' ''mst'' False (snd ?l'))"
    "list_ex is_net (events_since corrupt_cache
        (snd (get_signal_units demo_env 1140101001 ''ip'' ''mst'' True corrupt_cache)))"
    using t h(2) n by blast+
  have g': "fst (get_signal demo_env 1140101001 ''ip'' ''mst'' True corrupt_cache) = Inr demo_pair"
    using b by (simp only: g(1))
  have u': "fst (get_signal_units demo_env 1140101001 ''ip'' ''mst'' True corrupt_cache)
      = Inr (PyStr ''t0y0'')"
    using c by (simp only: u(1))
  show ?thesis
    using a g' g(2) u' u(2) by (intro conjI)
qed

text \<open>
  Claim C8: with \<open>use_cache=True\<close>, after a cache miss and a fetch that returned a value,
  an exception of the save (from the creation of the directory, from opening the file or
  from writing the pickle) is the outcome of the call: the same exception, in the state
  the save left, and the fetched value is not returned.
\<close>

theorem cache_write_failure_propagates:
  "(load_from_cache env tree shot (signal_expr signal) s = (Inl e0, s0)
      \<and> get_signal env shot signal tree False s0 = (Inr v, s1)
      \<and> save_to_cache env tree shot (signal_expr signal) v s1 = (Inl e, s2)
      \<longrightarrow> get_signal env shot signal tree True s = (Inl e, s2))
   \<and> (load_from_cache env tree shot (units_expr signal) s = (Inl e0', s0')
      \<and> get_signal_units env shot signal tree False s0' = (Inr v', s1')
      \<and> save_to_cache env tree shot (units_expr signal) v' s1' = (Inl e', s2')
      \<longrightarrow> get_signal_units env shot signal tree True s = (Inl e', s2'))"
  by (simp add: get_signal_miss get_signal_units_miss then_save_def)


theorem cache_write_failure_propagates_witness:
  "fst (get_signal demo_env 1140101001 ''ip'' ''mst'' True
          (refusing (Makedirs ''/home/mst/.mdsplus_cache/mst/1140101001/''))) = Inl OSError
   \<and> fst (get_signal demo_env 1140101001 ''ip'' ''mst'' True
          (refusing (OpenWrite ''/home/mst/.mdsplus_cache/mst/1140101001/5d41[if_'')))
       = Inl IOError
   \<and> fst (get_signal_units demo_env 1140101001 ''ip'' ''mst'' True
          (refusing (Dump ''/home/mst/.mdsplus_cache/mst/1140101001/5d41unit''))) = Inl IOError
   \<and> nodes (snd (get_signal_units demo_env 1140101001 ''ip'' ''mst'' True
          (refusing (Dump ''/home/mst/.mdsplus_cache/mst/1140101001/5d41unit''))))
        ''/home/mst/.mdsplus_cache/mst/1140101001/5d41unit'' = Some (File Garbage)"
proof -
  let ?A = "refusing (Makedirs ''/home/mst/.mdsplus_cache/mst/1140101001/'')"
  let ?la = "load_from_cache demo_env ''mst'' 1140101001 (signal_expr ''ip'') ?A"
  let ?fa = "get_signal demo_env 1140101001 ''ip'' ''mst'' False (snd ?la)"
  let ?wa = "save_to_cache demo_env ''mst'' 1140101001 (signal_expr ''ip'') demo_pair (snd ?fa)"
  have a1: "?la = (Inl IOError, snd ?la)"
    by (simp add: prod_eq_iff load_from_cache_apply refusing_def boot_def)
  have a2: "?fa = (Inr demo_pair, snd ?fa)"
    by (simp add: prod_eq_iff load_from_cache_state)
      (simp add: model_defs demo_defs refusing_def)
  have a3: "?wa = (Inl OSError, snd ?wa)"
    by (simp add: prod_eq_iff load_from_cache_state)
      (simp add: model_defs demo_defs refusing_def)
  have a: "get_signal demo_env 1140101001 ''ip'' ''mst'' True ?A = (Inl OSError, snd ?wa)"
    using cache_write_failure_propagates [THEN conjunct1, rule_format, OF conjI [OF a1 conjI [OF a2 a3]]] .
  let ?B = "refusing (OpenWrite ''/home/mst/.mdsplus_cache/mst/1140101001/5d41[if_'')"
  let ?lb = "load_from_cache demo_env ''mst'' 1140101001 (signal_expr ''ip'') ?B"
  let ?fb = "get_signal demo_env 1140101001 ''ip'' ''mst'' False (snd ?lb)"
  let ?wb = "save_to_cache demo_env ''mst'' 1140101001 (signal_expr ''ip'') demo_pair (snd ?fb)"
  have b1: "?lb = (Inl IOError, snd ?lb)"
    by (simp add: prod_eq_iff load_from_cache_apply refusing_def boot_def)
  have b2: "?fb = (Inr demo_pair, snd ?fb)"
    by (simp add: prod_eq_iff load_from_cache_state)
      (simp add: model_defs demo_defs refusing_def)
  have b3: "?wb = (Inl IOError, snd ?wb)"
    by (simp add: prod_eq_iff load_from_cache_state)
      (simp add: model_defs demo_defs refusing_def)
  have b: "get_signal demo_env 1140101001 ''ip'' ''mst'' True ?B = (Inl IOError, snd ?wb)"
    using cache_write_failure_propagates [THEN conjunct1, rule_format, OF conjI [OF b1 conjI [OF b2 b3]]] .
  let ?C = "refusing (Dump ''/home/mst/.mdsplus_cache/mst/1140101001/5d41unit'')"
  let ?lc = "load_from_cache demo_env ''mst'' 1140101001 (units_expr ''ip'') ?C"
  let ?fc = "get_signal_units demo_env 1140101001 ''ip'' ''mst'' False (snd ?lc)"
  let ?wc = "save_to_cache demo_env ''mst'' 1140101001 (units_expr ''ip'') (PyStr ''t0y0'') (snd ?fc)"
  have c1: "?lc = (Inl IOError, snd ?lc)"
    by (simp add: prod_eq_iff load_from_cache_apply refusing_def boot_def)
  have c2: "?fc = (Inr (PyStr ''t0y0''), snd ?fc)"
    by (simp add: prod_eq_iff load_from_cache_state)
      (simp add: model_defs demo_defs refusing_def)
  have c3: "?wc = (Inl IOError, snd ?wc)"
    by (simp add: prod_eq_iff load_from_cache_state)
      (simp add: model_defs demo_defs refusing_def)
  have c: "get_signal_units demo_env 1140101001 ''ip'' ''mst'' True ?C = (Inl IOError, snd ?wc)"
    using cache_write_failure_propagates [THEN conjunct2, rule_format, OF conjI [OF c1 conjI [OF c2 c3]]] .
  have n: "nodes (snd ?wc) ''/home/mst/.mdsplus_cache/mst/1140101001/5d41unit'' = Some (File Garbage)"
    by (simp add: load_from_cache_state)
      (simp add: model_defs demo_defs refusing_def)
  show ?thesis
    using a b c n by simp
qed

subsection \<open>One connection per server address\<close>

lemma keepsI:
  assumes "\<And>s. recorded s a c \<Longrightarrow>
    recorded (snd (m s)) a c \<and> (\<exists>evs. trace (snd (m s)) = trace s @ evs \<and> list_all P evs)"
  shows "keeps P a c m"
  using assms by (simp add: keeps_def)

lemma keepsD:
  assumes "keeps P a c m" "recorded s a c"
  shows "recorded (snd (m s)) a c"
    and "\<exists>evs. trace (snd (m s)) = trace s @ evs \<and> list_all P evs"
  using assms by (simp_all add: keeps_def)

lemma keeps_mono:
  assumes "keeps P a c m" "\<And>e. P e \<Longrightarrow> Q e"
  shows "keeps Q a c m"
proof (rule keepsI)
  fix s assume r: "recorded s a c"
  obtain evs where "trace (snd (m s)) = trace s @ evs" "list_all P evs"
    using keepsD(2) [OF assms(1) r] by blast
  moreover have "list_all Q evs"
    using \<open>list_all P evs\<close> assms(2) by (simp add: list_all_iff)
  ultimately show "recorded (snd (m s)) a c
      \<and> (\<exists>evs. trace (snd (m s)) = trace s @ evs \<and> list_all Q evs)"
    using keepsD(1) [OF assms(1) r] by blast
qed

lemma keeps_returns: "keeps P a c (returns x)"
  by (simp add: keeps_def returns_def)

lemma keeps_raise: "keeps P a c (raise e)"
  by (simp add: keeps_def raise_def)

lemma keeps_lift: "keeps P a c (lift r)"
  by (simp add: keeps_def lift_def)

lemma keeps_and_then:
  assumes "keeps P a c m" "\<And>x. keeps P a c (f x)"
  shows "keeps P a c (and_then m f)"
proof (rule keepsI)
  fix s assume r: "recorded s a c"
  obtain y s1 where ms: "m s = (y, s1)"
    by (cases "m s")
  have r1: "recorded s1 a c"
    using keepsD(1) [OF assms(1) r] ms by simp
  obtain e1 where e1: "trace s1 = trace s @ e1" "list_all P e1"
    using keepsD(2) [OF assms(1) r] ms by auto
  show "recorded (snd (and_then m f s)) a c
      \<and> (\<exists>evs. trace (snd (and_then m f s)) = trace s @ evs \<and> list_all P evs)"
  proof (cases y)
    case (Inl e)
    then show ?thesis
      using ms r1 e1 by (simp add: and_then_def)
  next
    case (Inr x)
    obtain e2 where e2: "trace (snd (f x s1)) = trace s1 @ e2" "list_all P e2"
      using keepsD(2) [OF assms(2) r1] by blast
    have "trace (snd (f x s1)) = trace s @ (e1 @ e2)" "list_all P (e1 @ e2)"
      using e1 e2 by simp_all
    then show ?thesis
      using ms Inr keepsD(1) [OF assms(2) r1, of x] by (auto simp: and_then_def)
  qed
qed

lemma keeps_try_except:
  assumes "keeps P a c m" "keeps P a c h"
  shows "keeps P a c (try_except m h)"
proof (rule keepsI)
  fix s assume r: "recorded s a c"
  obtain y s1 where ms: "m s = (y, s1)"
    by (cases "m s")
  have r1: "recorded s1 a c"
    using keepsD(1) [OF assms(1) r] ms by simp
  obtain e1 where e1: "trace s1 = trace s @ e1" "list_all P e1"
    using keepsD(2) [OF assms(1) r] ms by auto
  show "recorded (snd (try_except m h s)) a c
      \<and> (\<exists>evs. trace (snd (try_except m h s)) = trace s @ evs \<and> list_all P evs)"
  proof (cases y)
    case (Inr x)
    then show ?thesis
      using ms r1 e1 by (simp add: try_except_def)
  next
    case (Inl e)
    obtain e2 where e2: "trace (snd (h s1)) = trace s1 @ e2" "list_all P e2"
      using keepsD(2) [OF assms(2) r1] by blast
    have "trace (snd (h s1)) = trace s @ (e1 @ e2)" "list_all P (e1 @ e2)"
      using e1 e2 by simp_all
    then show ?thesis
      using ms Inl keepsD(1) [OF assms(2) r1] by (auto simp: try_except_def)
  qed
qed

lemma keeps_closeAllTrees: "keeps (other_than a) a c (closeAllTrees env k)"
  by (auto simp: keeps_def recorded_def closeAllTrees_def log_def)

lemma keeps_openTree: "keeps (other_than a) a c (openTree env k tree shot)"
  by (auto simp: keeps_def recorded_def openTree_def log_def)

lemma keeps_conn_get: "keeps (other_than a) a c (conn_get env k expr)"
  by (auto simp: keeps_def recorded_def conn_get_def log_def split: option.splits)

lemma keeps_mds_Connection:
  "svr \<noteq> a \<Longrightarrow> keeps (other_than a) a c (mds_Connection env svr)"
  by (auto simp: keeps_def recorded_def mds_Connection_def log_def)

lemma keeps_mds_Connection_any: "keeps (\<lambda>e. True) a c (mds_Connection env svr)"
  by (auto simp: keeps_def recorded_def mds_Connection_def log_def)

lemma keeps_os_path_exists: "keeps (other_than a) a c (os_path_exists p)"
  by (auto simp: keeps_def recorded_def os_path_exists_def log_def)

lemma keeps_os_makedirs: "keeps (other_than a) a c (os_makedirs p)"
  by (auto simp: keeps_def recorded_def os_makedirs_def log_def)

lemma keeps_open_rb: "keeps (other_than a) a c (open_rb p)"
  by (auto simp: keeps_def recorded_def open_rb_def log_def
      split: option.splits node.splits)

lemma keeps_open_wb: "keeps (other_than a) a c (open_wb p)"
  by (auto simp: keeps_def recorded_def open_wb_def log_def)

lemma keeps_cPickle_dump: "keeps (other_than a) a c (cPickle_dump data p)"
  by (auto simp: keeps_def recorded_def cPickle_dump_def)

lemma keeps_py_assert: "keeps P a c (py_assert b)"
  by (simp add: py_assert_def keeps_returns keeps_raise)

lemma keeps_load_from_cache: "keeps (other_than a) a c (load_from_cache env tree shot expr)"
  by (simp add: load_from_cache_def Let_def keeps_and_then keeps_open_rb keeps_lift
      split: prod.split)

lemma keeps_save_to_cache: "keeps (other_than a) a c (save_to_cache env tree shot expr v)"
  by (simp add: save_to_cache_def Let_def keeps_and_then keeps_os_path_exists keeps_os_makedirs
      keeps_returns keeps_open_wb keeps_cPickle_dump split: prod.split)

lemma keeps_cache_lookup:
  "keeps (other_than a) a c (cache_lookup env use_cache tree shot expr)"
  by (simp add: cache_lookup_def keeps_try_except keeps_and_then keeps_load_from_cache
      keeps_returns)

lemma recorded_cached:
  "recorded s a c \<Longrightarrow> \<exists>t n. get_svr_cached a s = (Some c, Some t, Some n)"
  by (auto simp: recorded_def get_svr_cached_def)

lemma keeps_get_connection: "keeps (other_than a) a c (get_connection env shot tree)"
proof (rule keepsI)
  fix s assume r: "recorded s a c"
  let ?svr = "get_server_for_shot shot s"
  let ?s' = "snd (get_connection env shot tree s)"
  show "recorded ?s' a c \<and> (\<exists>evs. trace ?s' = trace s @ evs \<and> list_all (other_than a) evs)"
  proof (cases rule: get_svr_cached_cases [of ?svr s])
    case absent
    have ne: "?svr \<noteq> a"
      using absent(1) recorded_cached [OF r] by auto
    show ?thesis
      unfolding get_connection_absent [OF absent(1)]
      using r ne by (auto simp: Let_def recorded_def update_svr_cache_def log_def)
  next
    case (present c0 t n)
    have same: "?svr = a \<Longrightarrow> c0 = c"
      using present(2) r by (simp add: recorded_def)
    show ?thesis
      unfolding get_connection_present [OF present(1)]
      using r same by (auto simp: Let_def recorded_def update_svr_cache_def log_def)
  qed
qed

lemma keeps_get_signal:
  "keeps (other_than a) a c (get_signal env shot signal tree use_cache)"
  by (simp add: get_signal_def Let_def keeps_and_then keeps_cache_lookup keeps_returns
      keeps_get_connection keeps_conn_get keeps_lift keeps_py_assert keeps_save_to_cache
      split: option.split prod.split)

lemma keeps_get_signal_units:
  "keeps (other_than a) a c (get_signal_units env shot signal tree use_cache)"
  by (simp add: get_signal_units_def Let_def keeps_and_then keeps_cache_lookup keeps_returns
      keeps_get_connection keeps_conn_get keeps_lift keeps_save_to_cache
      split: option.split prod.split)


lemma keeps_current_shot: "keeps (\<lambda>e. True) a c (current_shot env)"
proof -
  have g: "keeps (\<lambda>e. True) a c (conn_get env k expr)" for k expr
    using keeps_conn_get by (rule keeps_mono) simp
  have f: "keeps (\<lambda>e. True) a c
      (\<lambda>s. case AURORA s of None \<Rightarrow> raise NameError s | Some k \<Rightarrow> conn_get env k current_shot_expr s)"
    by (auto simp: keeps_def raise_def recorded_def conn_get_def log_def split: option.splits)
  have u: "keeps (\<lambda>e. True) a c (\<lambda>s. (Inr (), s\<lparr>AURORA := Some k\<rparr>))" for k
    by (simp add: keeps_def recorded_def)
  show ?thesis
    unfolding current_shot_def
    by (intro keeps_try_except keeps_and_then f u g keeps_lift keeps_mds_Connection_any)
qed

lemma run_call_keeps:
  assumes "recorded s a c"
  shows "recorded (run_call env x s) a c"
    and "\<exists>evs. trace (run_call env x s) = trace s @ evs
           \<and> (x \<noteq> CurrentShot \<longrightarrow> list_all (other_than a) evs)"
proof -
  have "recorded (run_call env x s) a c
      \<and> (\<exists>evs. trace (run_call env x s) = trace s @ evs
           \<and> (x \<noteq> CurrentShot \<longrightarrow> list_all (other_than a) evs))"
  proof (cases x)
    case (GetConnection shot tree)
    show ?thesis
      using keepsD [OF keeps_get_connection assms, of env shot tree] GetConnection by auto
  next
    case (GetSignal shot signal tree use_cache)
    show ?thesis
      using keepsD [OF keeps_get_signal assms, of env shot signal tree use_cache] GetSignal
      by auto
  next
    case (GetSignalUnits shot signal tree use_cache)
    show ?thesis
      using keepsD [OF keeps_get_signal_units assms, of env shot signal tree use_cache]
        GetSignalUnits
      by auto
  next
    case CurrentShot
    show ?thesis
      using keepsD [OF keeps_current_shot assms, of env] CurrentShot by auto
  next
    case (ClockTo d)
    show ?thesis
      using assms ClockTo by (simp add: recorded_def)
  qed
  then show "recorded (run_call env x s) a c"
    and "\<exists>evs. trace (run_call env x s) = trace s @ evs
           \<and> (x \<noteq> CurrentShot \<longrightarrow> list_all (other_than a) evs)"
    by simp_all
qed

lemma run_calls_keeps:
  assumes "recorded s a c"
  shows "recorded (run_calls env cs s) a c
       \<and> (\<exists>evs. trace (run_calls env cs s) = trace s @ evs
            \<and> (CurrentShot \<notin> set cs \<longrightarrow> list_all (other_than a) evs))"
  using assms
proof (induction cs arbitrary: s)
  case Nil
  then show ?case by (simp add: run_calls_def)
next
  case (Cons x cs)
  let ?s1 = "run_call env x s"
  have r1: "recorded ?s1 a c"
    using Cons.prems by (rule run_call_keeps(1))
  obtain e1 where e1: "trace ?s1 = trace s @ e1"
      "x \<noteq> CurrentShot \<longrightarrow> list_all (other_than a) e1"
    using run_call_keeps(2) [OF Cons.prems] by blast
  obtain e2 where e2: "trace (run_calls env cs ?s1) = trace ?s1 @ e2"
      "CurrentShot \<notin> set cs \<longrightarrow> list_all (other_than a) e2"
    using Cons.IH [OF r1] by blast
  have st: "run_calls env (x # cs) s = run_calls env cs ?s1"
    by (simp add: run_calls_def)
  have "trace (run_calls env (x # cs) s) = trace s @ (e1 @ e2)"
    "CurrentShot \<notin> set (x # cs) \<longrightarrow> list_all (other_than a) (e1 @ e2)"
    using e1 e2 st by auto
  then show ?case
    using Cons.IH [OF r1] st by metis
qed


lemma get_connection_constructs:
  "filter is_connect (events_since s (snd (get_connection env shot tree s))) =
     (if get_svr_cached (get_server_for_shot shot s) s = (None, None, None)
      then [EConnect (get_server_for_shot shot s)
              (if connect_ok env (trace s) (get_server_for_shot shot s)
               then Some (next_conn s) else None)]
      else [])"
proof (cases rule: get_svr_cached_cases [of "get_server_for_shot shot s" s])
  case absent
  show ?thesis
    unfolding get_connection_absent [OF absent(1)]
    by (simp add: absent(1) Let_def update_svr_cache_def log_def events_since_def)
next
  case (present c0 t n)
  show ?thesis
    unfolding get_connection_present [OF present(1)]
    by (simp add: present(1) Let_def update_svr_cache_def log_def events_since_def)
qed

text \<open>
  Claim C1, as the code has it. Once the table records a connection for an address, every
  sequence of calls of \<open>get_connection\<close>, \<open>get_signal\<close>, \<open>get_signal_units\<close> and
  \<open>current_shot\<close>, with any arguments, any behaviour of the remote service and any change
  of the date, leaves that connection recorded, and unless \<open>current_shot\<close> is among the
  calls, no connection to that address is constructed. A call of \<open>get_connection\<close>
  constructs a connection exactly when the table has no record for the server of the
  shot, one and to that server; when the call returns, the table records the connection
  it returns.
\<close>

theorem session_table_reuses_connection:
  "(recorded s a c \<longrightarrow>
      recorded (run_calls env cs s) a c
      \<and> (CurrentShot \<notin> set cs \<longrightarrow>
           \<not> list_ex (is_connect_to a) (events_since s (run_calls env cs s))))
   \<and> filter is_connect (events_since s (snd (get_connection env shot tree s))) =
       (if get_svr_cached (get_server_for_shot shot s) s = (None, None, None)
        then [EConnect (get_server_for_shot shot s)
                (if connect_ok env (trace s) (get_server_for_shot shot s)
                 then Some (next_conn s) else None)]
        else [])
   \<and> (get_connection env shot tree s = (Inr c', s') \<longrightarrow>
        recorded s' (get_server_for_shot shot s) c')"
proof -
  have a: "recorded (run_calls env cs s) a c
      \<and> (CurrentShot \<notin> set cs \<longrightarrow>
           \<not> list_ex (is_connect_to a) (events_since s (run_calls env cs s)))"
    if r: "recorded s a c"
  proof -
    obtain evs where e: "trace (run_calls env cs s) = trace s @ evs"
        "CurrentShot \<notin> set cs \<longrightarrow> list_all (other_than a) evs"
      using run_calls_keeps [OF r] by blast
    have "events_since s (run_calls env cs s) = evs"
      using e(1) by (rule events_since_append)
    then show ?thesis
      using run_calls_keeps [OF r] e(2) by (auto simp: list_all_iff list_ex_iff)
  qed
  have b: "recorded s' (get_server_for_shot shot s) c'"
    if "get_connection env shot tree s = (Inr c', s')"
    using get_connection_ok(1,2,3) [OF that] by (simp add: recorded_def)
  show ?thesis
    using a b get_connection_constructs by blast
qed

theorem session_table_reuses_connection_witness:
  "recorded dave_session ''dave.physics.wisc.edu'' 0
   \<and> recorded
        (run_calls demo_env
           [GetConnection 1140101002 ''mst'', GetConnection 1140102001 ''mst'',
            ClockTo \<lparr>year = 2014, month = 1, day = 3\<rparr>,
            GetSignal 1140102001 ''ip'' ''mst'' False]
           dave_session)
        ''dave.physics.wisc.edu'' 0
   \<and> filter is_connect
        (trace (run_calls demo_env
           [GetConnection 1140101002 ''mst'', GetConnection 1140102001 ''mst'',
            ClockTo \<lparr>year = 2014, month = 1, day = 3\<rparr>,
            GetSignal 1140102001 ''ip'' ''mst'' False]
           dave_session))
       = [EConnect ''dave.physics.wisc.edu'' (Some 0),
          EConnect ''aurora.physics.wisc.edu'' (Some 1)]
   \<and> filter is_connect (events_since boot dave_session)
       = [EConnect ''dave.physics.wisc.edu'' (Some 0)]"
proof -
  let ?cs = "[GetConnection 1140101002 ''mst'', GetConnection 1140102001 ''mst'',
              ClockTo \<lparr>year = 2014, month = 1, day = 3\<rparr>,
              GetSignal 1140102001 ''ip'' ''mst'' False]"
  have r: "recorded dave_session ''dave.physics.wisc.edu'' 0"
    by (simp add: recorded_def dave_session_def)
  have n: "CurrentShot \<notin> set ?cs"
    by simp
  have svr: "get_server_for_shot 1140101001 boot = ''dave.physics.wisc.edu''"
    by (simp add: get_server_for_shot_def boot_def min_shot_for_date_def)
  have t: "filter is_connect (trace (run_calls demo_env ?cs dave_session))
      = [EConnect ''dave.physics.wisc.edu'' (Some 0),
         EConnect ''aurora.physics.wisc.edu'' (Some 1)]"
    by (simp add: run_calls_def model_defs demo_defs)
  show ?thesis
    using session_table_reuses_connection
      [where s = dave_session and a = "''dave.physics.wisc.edu''" and c = 0 and env = demo_env
         and cs = ?cs]
      session_table_reuses_connection
      [where s = boot and env = demo_env and shot = 1140101001 and tree = "''mst''"
         and c' = 0 and s' = dave_session]
      r n t demo_first_connection svr
    by (simp add: get_svr_cached_def boot_def demo_env_def)
qed

text \<open>
  Claim C1 as stated fails: after \<open>get_connection\<close> for a shot of today has constructed
  the connection to aurora and recorded it, \<open>current_shot\<close> constructs a second
  connection to the same address and keeps it in \<open>_AURORA\<close>; both are alive.
\<close>

theorem current_shot_second_connection_counterexample:
  "filter is_connect
     (trace (run_calls demo_env [GetConnection 1140102001 ''mst'', CurrentShot] boot))
     = [EConnect ''aurora.physics.wisc.edu'' (Some 0),
        EConnect ''aurora.physics.wisc.edu'' (Some 1)]
   \<and> SVR_CONNS (run_calls demo_env [GetConnection 1140102001 ''mst'', CurrentShot] boot)
        ''aurora.physics.wisc.edu'' = Some 0
   \<and> AURORA (run_calls demo_env [GetConnection 1140102001 ''mst'', CurrentShot] boot) = Some 1"
  by (simp add: run_calls_def model_defs demo_defs)

subsection \<open>The second formatting of the units query\<close>

text \<open>
  Claim C7 fails in \<open>get_signal_units\<close>. The function formats its expression a second
  time before sending it. For the signal name \<open>{\<close> the expression is \<open>units({)\<close>, on which
  \<open>str.format\<close> raises \<open>ValueError\<close>. In a state where the table already records the
  connection with the requested tree and shot open, \<open>get_connection\<close> sends nothing, so
  the call with \<open>use_cache=False\<close> raises without any request to the remote service: the
  state, trace included, is as before.
\<close>

theorem get_signal_units_brace_no_request:
  "get_connection demo_env 1140101001 ''mst'' boot = (Inr 0, dave_session)
   \<and> get_signal_units demo_env 1140101001 ''{'' ''mst'' False dave_session
       = (Inl ValueError, dave_session)"
proof -
  have "get_connection demo_env 1140101001 ''mst'' dave_session = (Inr 0, dave_session)"
    by (intro get_connection_hit)
      (simp_all add: get_server_for_shot_def min_shot_for_date_def dave_session_def)
  then have "get_signal_units demo_env 1140101001 ''{'' ''mst'' False dave_session
      = (Inl ValueError, dave_session)"
    by (simp add: get_signal_units_def cache_lookup_unused io_simps Let_def units_expr_def
        py_format_def demo_env_def)
  then show ?thesis
    using demo_first_connection by simp
qed

theorem get_signal_units_brace_no_request_witness:
  "fst (get_signal_units demo_env 1140101001 ''{'' ''mst'' False dave_session) = Inl ValueError
   \<and> events_since dave_session
         (snd (get_signal_units demo_env 1140101001 ''{'' ''mst'' False dave_session)) = []
   \<and> SVR_SHOTS dave_session (get_server_for_shot 1140101001 dave_session) = Some 1140101001"
proof -
  have "SVR_SHOTS dave_session (get_server_for_shot 1140101001 dave_session) = Some 1140101001"
    by (simp add: get_server_for_shot_def min_shot_for_date_def dave_session_def)
  then show ?thesis
    using get_signal_units_brace_no_request by (simp add: events_since_def)
qed

end
